theory Spec2Isabelle
  imports Main "HOL-Library.AList"
begin

text \<open>
  BookBazaar: the in-memory store \<^verbatim>\<open>MemStorage\<close> and the Express routes that call it,
  as functions on an explicit store. Every operation that writes takes the store and
  returns the new one beside its result; the current time is an argument of the operations
  that stamp \<^verbatim>\<open>new Date()\<close>; a route handler returns the response it sends. The body parser
  is taken to give every request an object as \<^verbatim>\<open>req.body\<close>.
\<close>

section \<open>Data model (shared/schema.ts)\<close>

text \<open>
  The row types inferred from the tables of \<^verbatim>\<open>shared/schema.ts\<close>. Ids are JavaScript
  numbers produced by integer counters or by \<^verbatim>\<open>parseInt\<close>; they are modelled as \<open>int\<close>.
  Decimal columns (\<^verbatim>\<open>price\<close>, \<^verbatim>\<open>total\<close>) are strings in the row types. A \<^verbatim>\<open>Date\<close> is its
  millisecond timestamp. Nullable columns are options, except the creation times, which
  \<^verbatim>\<open>MemStorage\<close> always stamps with \<^verbatim>\<open>new Date()\<close>. Field names carry the entity as a
  prefix, since record fields are global names.
\<close>

record user =
  user_id :: int
  user_email :: string
  user_password :: string
  user_name :: string
  user_role :: string
  user_createdAt :: int

record book =
  book_id :: int
  book_title :: string
  book_author :: string
  book_description :: string
  book_price :: string
  book_condition :: string
  book_category :: string
  book_imageUrl :: "string option"
  book_sellerId :: int
  book_isAvailable :: "bool option"
  book_createdAt :: int

record order =
  order_id :: int
  order_buyerId :: int
  order_total :: string
  order_status :: string
  order_createdAt :: int

record order_item =
  item_id :: int
  item_orderId :: int
  item_bookId :: int
  item_price :: string

record message =
  msg_id :: int
  msg_senderId :: int
  msg_receiverId :: int
  msg_bookId :: "int option"
  msg_content :: string
  msg_createdAt :: int

record cart_item =
  cart_id :: int
  cart_buyerId :: int
  cart_bookId :: int
  cart_addedAt :: int

text \<open>The insert types with more than a few fields.\<close>

record insert_user =
  iu_email :: string
  iu_password :: string
  iu_name :: string
  iu_role :: string

record insert_book =
  ib_title :: string
  ib_author :: string
  ib_description :: string
  ib_price :: string
  ib_condition :: string
  ib_category :: string
  ib_imageUrl :: "string option"
  ib_isAvailable :: "bool option"

text \<open>
  \<^verbatim>\<open>Partial<InsertBook>\<close>: every field may be absent (\<open>None\<close>); a present nullable field
  is \<open>Some None\<close> for \<^verbatim>\<open>null\<close>.
\<close>

record book_update =
  upd_title :: "string option"
  upd_author :: "string option"
  upd_description :: "string option"
  upd_price :: "string option"
  upd_condition :: "string option"
  upd_category :: "string option"
  upd_imageUrl :: "string option option"
  upd_isAvailable :: "bool option option"

definition no_update :: book_update where
  "no_update = \<lparr>upd_title = None, upd_author = None, upd_description = None,
     upd_price = None, upd_condition = None, upd_category = None,
     upd_imageUrl = None, upd_isAvailable = None\<rparr>"

section \<open>MemStorage\<close>

text \<open>
  A JavaScript \<^verbatim>\<open>Map\<close> iterates in insertion order; \<^verbatim>\<open>set\<close> on a present key replaces the
  value in place and on a new key appends; \<^verbatim>\<open>delete\<close> removes the entry. Each table is an
  association list in insertion order: \<open>map_of\<close> is \<^verbatim>\<open>get\<close>, \<open>AList.update\<close> is \<^verbatim>\<open>set\<close>,
  \<open>AList.delete\<close> is \<^verbatim>\<open>delete\<close>, \<open>map snd\<close> is \<^verbatim>\<open>Array.from(m.values())\<close>.
\<close>

record store =
  users :: "(int \<times> user) list"
  books :: "(int \<times> book) list"
  orders :: "(int \<times> order) list"
  orderItems :: "(int \<times> order_item) list"
  messages :: "(int \<times> message) list"
  cartItems :: "(int \<times> cart_item) list"
  currentUserId :: int
  currentBookId :: int
  currentOrderId :: int
  currentOrderItemId :: int
  currentMessageId :: int
  currentCartItemId :: int

definition new_store :: store where
  "new_store = \<lparr>users = [], books = [], orders = [], orderItems = [], messages = [],
     cartItems = [], currentUserId = 1, currentBookId = 1, currentOrderId = 1,
     currentOrderItemId = 1, currentMessageId = 1, currentCartItemId = 1\<rparr>"

subsection \<open>Users\<close>

definition getUser :: "store \<Rightarrow> int \<Rightarrow> user option" where
  "getUser s uid = map_of (users s) uid"

definition getUserByEmail :: "store \<Rightarrow> string \<Rightarrow> user option" where
  "getUserByEmail s email = find (\<lambda>u. user_email u = email) (map snd (users s))"

definition createUser :: "store \<Rightarrow> insert_user \<Rightarrow> int \<Rightarrow> user \<times> store" where
  "createUser s insertUser now =
     (let nid = currentUserId s;
          u = \<lparr>user_id = nid, user_email = iu_email insertUser,
               user_password = iu_password insertUser, user_name = iu_name insertUser,
               user_role = iu_role insertUser, user_createdAt = now\<rparr>
      in (u, s\<lparr>currentUserId := nid + 1, users := AList.update nid u (users s)\<rparr>))"

subsection \<open>Books\<close>

text \<open>
  \<^verbatim>\<open>String.prototype.includes\<close>, by a prefix test at every position.
  \<^verbatim>\<open>String.prototype.toLowerCase\<close> belongs to the JavaScript runtime and folds the letters
  of every script: it is a parameter of the functions that call it.
\<close>

fun startsWith :: "string \<Rightarrow> string \<Rightarrow> bool" where
  "startsWith s [] = True"
| "startsWith [] (c # t) = False"
| "startsWith (x # s) (c # t) = (x = c \<and> startsWith s t)"

fun str_includes :: "string \<Rightarrow> string \<Rightarrow> bool" where
  "str_includes [] t = (t = [])"
| "str_includes (x # s) t = (startsWith (x # s) t \<or> str_includes s t)"

text \<open>
  The optional filters: \<open>None\<close> is \<^verbatim>\<open>undefined\<close>. A filter applies when its value is truthy,
  that is a non-empty string. An absent \<^verbatim>\<open>filters\<close> object behaves as one with no field.
\<close>

record book_filters =
  f_category :: "string option"
  f_condition :: "string option"
  f_search :: "string option"

definition getBooks :: "(string \<Rightarrow> string) \<Rightarrow> store \<Rightarrow> book_filters \<Rightarrow> book list" where
  "getBooks toLowerCase s filters =
     (let books0 = filter (\<lambda>b. book_isAvailable b = Some True) (map snd (books s));
          books1 = (case f_category filters of
                      None \<Rightarrow> books0
                    | Some category \<Rightarrow>
                        if category = [] then books0
                        else filter (\<lambda>b. book_category b = category) books0);
          books2 = (case f_condition filters of
                      None \<Rightarrow> books1
                    | Some condition \<Rightarrow>
                        if condition = [] then books1
                        else filter (\<lambda>b. book_condition b = condition) books1);
          books3 = (case f_search filters of
                      None \<Rightarrow> books2
                    | Some search \<Rightarrow>
                        if search = [] then books2
                        else (let searchTerm = toLowerCase search
                              in filter
                                   (\<lambda>b. str_includes (toLowerCase (book_title b)) searchTerm \<or>
                                        str_includes (toLowerCase (book_author b)) searchTerm \<or>
                                        str_includes (toLowerCase (book_description b)) searchTerm)
                                   books2))
      in books3)"

definition getBook :: "store \<Rightarrow> int \<Rightarrow> book option" where
  "getBook s bid = map_of (books s) bid"

definition getBooksBySeller :: "store \<Rightarrow> int \<Rightarrow> book list" where
  "getBooksBySeller s sellerId = filter (\<lambda>b. book_sellerId b = sellerId) (map snd (books s))"

definition createBook :: "store \<Rightarrow> insert_book \<Rightarrow> int \<Rightarrow> int \<Rightarrow> book \<times> store" where
  "createBook s insertBook sellerId now =
     (let nid = currentBookId s;
          b = \<lparr>book_id = nid, book_title = ib_title insertBook,
               book_author = ib_author insertBook,
               book_description = ib_description insertBook,
               book_price = ib_price insertBook, book_condition = ib_condition insertBook,
               book_category = ib_category insertBook,
               book_imageUrl = ib_imageUrl insertBook, book_sellerId = sellerId,
               book_isAvailable = Some True, book_createdAt = now\<rparr>
      in (b, s\<lparr>currentBookId := nid + 1, books := AList.update nid b (books s)\<rparr>))"

text \<open>The object spread \<^verbatim>\<open>{ ...book, ...updateData }\<close>: a present field overwrites.\<close>

definition merge_book :: "book \<Rightarrow> book_update \<Rightarrow> book" where
  "merge_book b u =
     b\<lparr>book_title := (case upd_title u of None \<Rightarrow> book_title b | Some v \<Rightarrow> v),
       book_author := (case upd_author u of None \<Rightarrow> book_author b | Some v \<Rightarrow> v),
       book_description :=
         (case upd_description u of None \<Rightarrow> book_description b | Some v \<Rightarrow> v),
       book_price := (case upd_price u of None \<Rightarrow> book_price b | Some v \<Rightarrow> v),
       book_condition := (case upd_condition u of None \<Rightarrow> book_condition b | Some v \<Rightarrow> v),
       book_category := (case upd_category u of None \<Rightarrow> book_category b | Some v \<Rightarrow> v),
       book_imageUrl := (case upd_imageUrl u of None \<Rightarrow> book_imageUrl b | Some v \<Rightarrow> v),
       book_isAvailable :=
         (case upd_isAvailable u of None \<Rightarrow> book_isAvailable b | Some v \<Rightarrow> v)\<rparr>"

definition updateBook :: "store \<Rightarrow> int \<Rightarrow> book_update \<Rightarrow> book option \<times> store" where
  "updateBook s bid updateData =
     (case map_of (books s) bid of
        None \<Rightarrow> (None, s)
      | Some b \<Rightarrow>
          (let updatedBook = merge_book b updateData
           in (Some updatedBook, s\<lparr>books := AList.update bid updatedBook (books s)\<rparr>)))"

definition deleteBook :: "store \<Rightarrow> int \<Rightarrow> bool \<times> store" where
  "deleteBook s bid =
     (map_of (books s) bid \<noteq> None, s\<lparr>books := AList.delete bid (books s)\<rparr>)"

subsection \<open>Orders\<close>

definition getOrdersByBuyer :: "store \<Rightarrow> int \<Rightarrow> order list" where
  "getOrdersByBuyer s buyerId = filter (\<lambda>ord. order_buyerId ord = buyerId) (map snd (orders s))"

definition createOrder :: "store \<Rightarrow> int \<Rightarrow> string \<Rightarrow> string \<Rightarrow> int \<Rightarrow> order \<times> store" where
  "createOrder s buyerId totalStr status now =
     (let nid = currentOrderId s;
          ord = \<lparr>order_id = nid, order_buyerId = buyerId, order_total = totalStr,
                 order_status = status, order_createdAt = now\<rparr>
      in (ord, s\<lparr>currentOrderId := nid + 1, orders := AList.update nid ord (orders s)\<rparr>))"

definition getOrderItems :: "store \<Rightarrow> int \<Rightarrow> order_item list" where
  "getOrderItems s orderId = filter (\<lambda>item. item_orderId item = orderId) (map snd (orderItems s))"

definition createOrderItem :: "store \<Rightarrow> int \<Rightarrow> int \<Rightarrow> string \<Rightarrow> order_item \<times> store" where
  "createOrderItem s orderId bookId price =
     (let nid = currentOrderItemId s;
          orderItem = \<lparr>item_id = nid, item_orderId = orderId, item_bookId = bookId,
                       item_price = price\<rparr>
      in (orderItem,
          s\<lparr>currentOrderItemId := nid + 1,
            orderItems := AList.update nid orderItem (orderItems s)\<rparr>))"

subsection \<open>Messages\<close>

text \<open>
  \<^verbatim>\<open>Array.prototype.sort\<close> is stable, and the comparator
  \<^verbatim>\<open>a.createdAt.getTime() - b.createdAt.getTime()\<close> orders by the timestamp: the stable
  insertion sort \<open>sort_key\<close> on \<open>msg_createdAt\<close>. \<^verbatim>\<open>DatabaseStorage\<close> runs the same filter
  and sort on the rows its select returns, so the computation on a list of rows is a
  function of its own.
\<close>

definition thread_of :: "message list \<Rightarrow> int \<Rightarrow> int \<Rightarrow> message list" where
  "thread_of rows user1Id user2Id =
     sort_key msg_createdAt
       (filter (\<lambda>m. (msg_senderId m = user1Id \<and> msg_receiverId m = user2Id) \<or>
                     (msg_senderId m = user2Id \<and> msg_receiverId m = user1Id)) rows)"

definition getMessagesBetweenUsers :: "store \<Rightarrow> int \<Rightarrow> int \<Rightarrow> message list" where
  "getMessagesBetweenUsers s user1Id user2Id = thread_of (map snd (messages s)) user1Id user2Id"

definition createMessage ::
  "store \<Rightarrow> int \<Rightarrow> int \<Rightarrow> int option \<Rightarrow> string \<Rightarrow> int \<Rightarrow> message \<times> store" where
  "createMessage s senderId receiverId bookId content now =
     (let nid = currentMessageId s;
          m = \<lparr>msg_id = nid, msg_senderId = senderId, msg_receiverId = receiverId,
               msg_bookId = bookId, msg_content = content, msg_createdAt = now\<rparr>
      in (m, s\<lparr>currentMessageId := nid + 1, messages := AList.update nid m (messages s)\<rparr>))"

subsection \<open>Cart\<close>

definition getCartItems :: "store \<Rightarrow> int \<Rightarrow> cart_item list" where
  "getCartItems s buyerId = filter (\<lambda>item. cart_buyerId item = buyerId) (map snd (cartItems s))"

definition addToCart :: "store \<Rightarrow> int \<Rightarrow> int \<Rightarrow> int \<Rightarrow> cart_item \<times> store" where
  "addToCart s buyerId bookId now =
     (let nid = currentCartItemId s;
          cartItem = \<lparr>cart_id = nid, cart_buyerId = buyerId, cart_bookId = bookId,
                      cart_addedAt = now\<rparr>
      in (cartItem,
          s\<lparr>currentCartItemId := nid + 1,
            cartItems := AList.update nid cartItem (cartItems s)\<rparr>))"

definition removeFromCart :: "store \<Rightarrow> int \<Rightarrow> int \<Rightarrow> bool \<times> store" where
  "removeFromCart s buyerId bookId =
     (case find (\<lambda>item. cart_buyerId item = buyerId \<and> cart_bookId item = bookId)
             (map snd (cartItems s)) of
        Some item \<Rightarrow>
          (map_of (cartItems s) (cart_id item) \<noteq> None,
           s\<lparr>cartItems := AList.delete (cart_id item) (cartItems s)\<rparr>)
      | None \<Rightarrow> (False, s))"

definition clearCart :: "store \<Rightarrow> int \<Rightarrow> bool \<times> store" where
  "clearCart s buyerId =
     (let items = filter (\<lambda>item. cart_buyerId item = buyerId) (map snd (cartItems s))
      in (True,
          s\<lparr>cartItems := fold (\<lambda>item m. AList.delete (cart_id item) m) items (cartItems s)\<rparr>))"

section \<open>Routes (server/routes.ts)\<close>

text \<open>
  The payload signed into a token by the register and login routes, which
  \<^verbatim>\<open>authenticateToken\<close> attaches to the request as \<^verbatim>\<open>req.user\<close>.
\<close>

record jwt_user =
  jwt_userId :: int
  jwt_email :: string
  jwt_role :: string

text \<open>
  A response is its status code and its JSON body; the \<^verbatim>\<open>error\<close> detail that the catch
  blocks add beside the message is left out.
\<close>

datatype body =
    Message string
  | BookBody book
  | BooksBody "book list"
  | OrderBody order
  | CartItemBody cart_item
  | MessagesBody "message list"
  | NoBody

datatype response = Response nat body

subsection \<open>authenticateToken\<close>

text \<open>\<^verbatim>\<open>String.prototype.split\<close> on a one-character separator.\<close>

fun split_on :: "char \<Rightarrow> string \<Rightarrow> string list" where
  "split_on c [] = [] # []"
| "split_on c (x # xs) =
     (if x = c then [] # split_on c xs
      else (case split_on c xs of
              [] \<Rightarrow> [x] # []
            | w # ws \<Rightarrow> (x # w) # ws))"

text \<open>
  \<^verbatim>\<open>authHeader && authHeader.split(' ')[1]\<close>, then the test \<^verbatim>\<open>!token\<close>: the token is
  absent when the header is missing or empty, when it has no second segment, or when that
  segment is the empty string.
\<close>

definition header_token :: "string option \<Rightarrow> string option" where
  "header_token authHeader =
     (case authHeader of
        None \<Rightarrow> None
      | Some h \<Rightarrow>
          if h = [] then None
          else (case split_on CHR '' '' h of
                  _ # t # _ \<Rightarrow> if t = [] then None else Some t
                | _ \<Rightarrow> None))"

text \<open>
  \<^verbatim>\<open>jwt.verify\<close> belongs to the jsonwebtoken library: it is a parameter, \<open>None\<close> when
  it reports an error (bad signature, malformed or expired token) and the decoded payload
  otherwise. The middleware either answers itself or calls \<^verbatim>\<open>next()\<close> with the user
  attached.
\<close>

datatype gate = Reject response | Next jwt_user

definition authenticateToken :: "(string \<Rightarrow> jwt_user option) \<Rightarrow> string option \<Rightarrow> gate" where
  "authenticateToken verify authHeader =
     (case header_token authHeader of
        None \<Rightarrow> Reject (Response 401 (Message ''Access token required''))
      | Some token \<Rightarrow>
          (case verify token of
             None \<Rightarrow> Reject (Response 403 (Message ''Invalid token''))
           | Some u \<Rightarrow> Next u))"

text \<open>
  A route registered as \<^verbatim>\<open>app.METHOD(path, authenticateToken, handler)\<close>: the handler runs
  only when the middleware calls \<^verbatim>\<open>next()\<close>.
\<close>

definition authenticated ::
  "(string \<Rightarrow> jwt_user option) \<Rightarrow> string option \<Rightarrow>
   (jwt_user \<Rightarrow> store \<Rightarrow> response \<times> store) \<Rightarrow> store \<Rightarrow> response \<times> store" where
  "authenticated verify authHeader handler s =
     (case authenticateToken verify authHeader of
        Reject r \<Rightarrow> (r, s)
      | Next u \<Rightarrow> handler u s)"

subsection \<open>Book routes\<close>

text \<open>
  Path parameters arrive already parsed by \<^verbatim>\<open>parseInt\<close>. Request bodies validated by a zod
  schema arrive as the parsed value, \<open>None\<close> when \<^verbatim>\<open>parse\<close> throws.
\<close>

definition get_api_books :: "(string \<Rightarrow> string) \<Rightarrow> store \<Rightarrow> book_filters \<Rightarrow> response" where
  "get_api_books toLowerCase s query = Response 200 (BooksBody (getBooks toLowerCase s query))"

definition get_api_books_id :: "store \<Rightarrow> int \<Rightarrow> response" where
  "get_api_books_id s bid =
     (case getBook s bid of
        None \<Rightarrow> Response 404 (Message ''Book not found'')
      | Some b \<Rightarrow> Response 200 (BookBody b))"

text \<open>
  The upload middleware \<^verbatim>\<open>upload.single('image')\<close> of \<^verbatim>\<open>POST /api/books\<close>. The file part
  of a multipart request carries the name and the MIME type that the client sent;
  \<^verbatim>\<open>path.extname\<close> belongs to Node and is a parameter. \<^verbatim>\<open>allowedTypes\<close> is the regular
  expression \<^verbatim>\<open>/jpeg|jpg|png|gif/\<close>, whose \<^verbatim>\<open>test\<close> finds one of the four words anywhere in
  the string. \<^verbatim>\<open>fileFilter\<close> is true when it accepts the file with \<^verbatim>\<open>cb(null, true)\<close> and
  false when it calls back with the error \<open>Only image files are allowed\<close>.
\<close>

record upload_file =
  file_originalname :: string
  file_mimetype :: string

definition allowedTypes :: "string \<Rightarrow> bool" where
  "allowedTypes t \<longleftrightarrow>
     str_includes t ''jpeg'' \<or> str_includes t ''jpg'' \<or> str_includes t ''png'' \<or>
     str_includes t ''gif''"

definition fileFilter ::
  "(string \<Rightarrow> string) \<Rightarrow> (string \<Rightarrow> string) \<Rightarrow> upload_file \<Rightarrow> bool" where
  "fileFilter extname toLowerCase file =
     (let ext_ok = allowedTypes (toLowerCase (extname (file_originalname file)));
          mimetype = allowedTypes (file_mimetype file)
      in mimetype \<and> ext_ok)"

text \<open>
  What a request brings for the middleware: no file at all (the middleware passes the
  request on), a file in the field \<^verbatim>\<open>image\<close> within the size limit of
  \<^verbatim>\<open>5 * 1024 * 1024\<close> bytes (multer asks \<^verbatim>\<open>fileFilter\<close>), or an upload that multer refuses by
  itself (a file over the limit, a file in another field, a broken multipart body). The
  middleware is true when it calls \<^verbatim>\<open>next()\<close> and false when it calls \<^verbatim>\<open>next(err)\<close>.
\<close>

datatype upload_part = NoUpload | ImageFile upload_file | RefusedUpload

definition upload_single_image ::
  "(string \<Rightarrow> string) \<Rightarrow> (string \<Rightarrow> string) \<Rightarrow> upload_part \<Rightarrow> bool" where
  "upload_single_image extname toLowerCase part =
     (case part of
        NoUpload \<Rightarrow> True
      | ImageFile file \<Rightarrow> fileFilter extname toLowerCase file
      | RefusedUpload \<Rightarrow> False)"

text \<open>
  \<^verbatim>\<open>POST /api/books\<close>, registered as
  \<^verbatim>\<open>app.post('/api/books', authenticateToken, upload.single('image'), handler)\<close>: the upload
  middleware runs after the token check and before the handler. When it calls
  \<^verbatim>\<open>next(err)\<close> the handler does not run and the application's error handler answers;
  that handler is installed outside \<^verbatim>\<open>routes.ts\<close>, so its response \<open>errorResponse\<close> is a
  parameter.
\<close>

definition post_api_books ::
  "(string \<Rightarrow> string) \<Rightarrow> (string \<Rightarrow> string) \<Rightarrow> response \<Rightarrow> upload_part \<Rightarrow>
   insert_book option \<Rightarrow> int \<Rightarrow> jwt_user \<Rightarrow> store \<Rightarrow> response \<times> store" where
  "post_api_books extname toLowerCase errorResponse part parsed now u s =
     (if \<not> upload_single_image extname toLowerCase part then (errorResponse, s)
      else if jwt_role u \<noteq> ''seller''
      then (Response 403 (Message ''Only sellers can create books''), s)
      else (case parsed of
              None \<Rightarrow> (Response 400 (Message ''Failed to create book''), s)
            | Some bookData \<Rightarrow>
                (case createBook s bookData (jwt_userId u) now of
                   (b, s') \<Rightarrow> (Response 201 (BookBody b), s'))))"

definition put_api_books_id ::
  "int \<Rightarrow> book_update option \<Rightarrow> jwt_user \<Rightarrow> store \<Rightarrow> response \<times> store" where
  "put_api_books_id bid parsed u s =
     (case getBook s bid of
        None \<Rightarrow> (Response 404 (Message ''Book not found''), s)
      | Some b \<Rightarrow>
          if book_sellerId b \<noteq> jwt_userId u
          then (Response 403 (Message ''You can only edit your own books''), s)
          else (case parsed of
                  None \<Rightarrow> (Response 400 (Message ''Failed to update book''), s)
                | Some bookData \<Rightarrow>
                    (case updateBook s bid bookData of
                       (Some updatedBook, s') \<Rightarrow> (Response 200 (BookBody updatedBook), s')
                     | (None, s') \<Rightarrow> (Response 200 NoBody, s'))))"

definition delete_api_books_id :: "int \<Rightarrow> jwt_user \<Rightarrow> store \<Rightarrow> response \<times> store" where
  "delete_api_books_id bid u s =
     (case getBook s bid of
        None \<Rightarrow> (Response 404 (Message ''Book not found''), s)
      | Some b \<Rightarrow>
          if book_sellerId b \<noteq> jwt_userId u
          then (Response 403 (Message ''You can only delete your own books''), s)
          else (Response 204 NoBody, snd (deleteBook s bid)))"

definition get_api_seller_books :: "jwt_user \<Rightarrow> store \<Rightarrow> response \<times> store" where
  "get_api_seller_books u s =
     (if jwt_role u \<noteq> ''seller''
      then (Response 403 (Message ''Only sellers can access this endpoint''), s)
      else (Response 200 (BooksBody (getBooksBySeller s (jwt_userId u))), s))"

subsection \<open>Cart routes\<close>

definition post_api_cart :: "int \<Rightarrow> int \<Rightarrow> jwt_user \<Rightarrow> store \<Rightarrow> response \<times> store" where
  "post_api_cart bookId now u s =
     (case addToCart s (jwt_userId u) bookId now of
        (cartItem, s') \<Rightarrow> (Response 201 (CartItemBody cartItem), s'))"

definition delete_api_cart_bookId :: "int \<Rightarrow> jwt_user \<Rightarrow> store \<Rightarrow> response \<times> store" where
  "delete_api_cart_bookId bookId u s =
     (Response 204 NoBody, snd (removeFromCart s (jwt_userId u) bookId))"

subsection \<open>Order routes\<close>

text \<open>The update that checkout applies to a sold book: \<^verbatim>\<open>{ isAvailable: false }\<close>.\<close>

definition mark_unavailable :: book_update where
  "mark_unavailable = no_update\<lparr>upd_isAvailable := Some (Some False)\<rparr>"

text \<open>The body of the loop \<^verbatim>\<open>for (const cartItem of cartItems)\<close> of the checkout.\<close>

definition order_step :: "order \<Rightarrow> cart_item \<Rightarrow> store \<Rightarrow> store" where
  "order_step ord cartItem s =
     (case getBook s (cart_bookId cartItem) of
        None \<Rightarrow> s
      | Some b \<Rightarrow>
          (let s1 = snd (createOrderItem s (order_id ord) (cart_bookId cartItem) (book_price b))
           in snd (updateBook s1 (cart_bookId cartItem) mark_unavailable)))"

text \<open>
  \<^verbatim>\<open>POST /api/orders\<close>. The body's \<^verbatim>\<open>total\<close> is given by the string that
  \<^verbatim>\<open>total.toString()\<close> returns, \<open>None\<close> when \<^verbatim>\<open>total\<close> is missing or \<^verbatim>\<open>null\<close>: then
  \<^verbatim>\<open>toString\<close> throws while the argument of \<^verbatim>\<open>createOrder\<close> is built, before any store
  call, and the catch block answers 400.
\<close>

definition post_api_orders ::
  "string option \<Rightarrow> int \<Rightarrow> jwt_user \<Rightarrow> store \<Rightarrow> response \<times> store" where
  "post_api_orders total_field now u s =
     (let cart = getCartItems s (jwt_userId u)
      in if length cart = 0 then (Response 400 (Message ''Cart is empty''), s)
         else (case total_field of
                 None \<Rightarrow> (Response 400 (Message ''Failed to create order''), s)
               | Some totalStr \<Rightarrow>
                   (case createOrder s (jwt_userId u) totalStr ''completed'' now of
                      (ord, s1) \<Rightarrow>
                        (let s2 = fold (order_step ord) cart s1;
                             s3 = snd (clearCart s2 (jwt_userId u))
                         in (Response 201 (OrderBody ord), s3)))))"

subsection \<open>Message routes\<close>

definition get_api_messages_userId :: "int \<Rightarrow> jwt_user \<Rightarrow> store \<Rightarrow> response \<times> store" where
  "get_api_messages_userId otherUserId u s =
     (Response 200 (MessagesBody (getMessagesBetweenUsers s (jwt_userId u) otherUserId)), s)"

section \<open>Well-formed stores\<close>

text \<open>
  What every store built by \<^verbatim>\<open>MemStorage\<close> satisfies: a table is a \<^verbatim>\<open>Map\<close>, so its keys
  are distinct; each record is stored under its own id; every id in use is below the
  table's counter; and an order item belongs to an order id that was already handed out.
\<close>

definition table_ok :: "('v \<Rightarrow> int) \<Rightarrow> int \<Rightarrow> (int \<times> 'v) list \<Rightarrow> bool" where
  "table_ok idf next tbl \<longleftrightarrow>
     distinct (map fst tbl) \<and> list_all (\<lambda>(k, v). idf v = k \<and> k < next) tbl"

definition store_inv :: "store \<Rightarrow> bool" where
  "store_inv s \<longleftrightarrow>
     table_ok user_id (currentUserId s) (users s) \<and>
     table_ok book_id (currentBookId s) (books s) \<and>
     table_ok order_id (currentOrderId s) (orders s) \<and>
     table_ok item_id (currentOrderItemId s) (orderItems s) \<and>
     table_ok msg_id (currentMessageId s) (messages s) \<and>
     table_ok cart_id (currentCartItemId s) (cartItems s) \<and>
     list_all (\<lambda>(k, it). item_orderId it < currentOrderId s) (orderItems s)"

section \<open>Auxiliary definitions for the proofs\<close>

text \<open>
  The order items that the checkout loop adds when it starts with the counter at \<open>n\<close>:
  one per cart entry whose book \<open>bk\<close> finds, in cart order, numbered consecutively.
  The order that the checkout creates, and a book after it has been sold.
\<close>

fun created_items ::
  "(int \<Rightarrow> book option) \<Rightarrow> int \<Rightarrow> int \<Rightarrow> cart_item list \<Rightarrow> (int \<times> order_item) list" where
  "created_items bk oid n [] = []"
| "created_items bk oid n (ci # cis) =
     (case bk (cart_bookId ci) of
        None \<Rightarrow> created_items bk oid n cis
      | Some b \<Rightarrow>
          (n, \<lparr>item_id = n, item_orderId = oid, item_bookId = cart_bookId ci,
               item_price = book_price b\<rparr>) # created_items bk oid (n + 1) cis)"

definition placed_order :: "store \<Rightarrow> jwt_user \<Rightarrow> string \<Rightarrow> int \<Rightarrow> order" where
  "placed_order s u t now =
     \<lparr>order_id = currentOrderId s, order_buyerId = jwt_userId u, order_total = t,
      order_status = ''completed'', order_createdAt = now\<rparr>"

definition sold :: "book \<Rightarrow> book" where
  "sold b = b\<lparr>book_isAvailable := Some False\<rparr>"

text \<open>
  A sequence of cart operations of one or several buyers, for the uniqueness of cart
  entries: each operation is a call of the route of that name by the given buyer.
\<close>

datatype cart_op = AddToCart int int int | RemoveFromCart int int

fun apply_cart_op :: "cart_op \<Rightarrow> store \<Rightarrow> store" where
  "apply_cart_op (AddToCart buyer bookId now) s =
     snd (post_api_cart bookId now \<lparr>jwt_userId = buyer, jwt_email = [], jwt_role = []\<rparr> s)"
| "apply_cart_op (RemoveFromCart buyer bookId) s =
     snd (delete_api_cart_bookId bookId \<lparr>jwt_userId = buyer, jwt_email = [], jwt_role = []\<rparr> s)"

text \<open>No operation of the sequence adds a listing that the buyer's cart holds at that moment.\<close>

fun no_readd :: "store \<Rightarrow> cart_op list \<Rightarrow> bool" where
  "no_readd s [] = True"
| "no_readd s (AddToCart buyer bookId now # ops) =
     (bookId \<notin> cart_bookId ` set (getCartItems s buyer) \<and>
      no_readd (apply_cart_op (AddToCart buyer bookId now) s) ops)"
| "no_readd s (RemoveFromCart buyer bookId # ops) =
     no_readd (apply_cart_op (RemoveFromCart buyer bookId) s) ops"

definition cart_unique :: "store \<Rightarrow> bool" where
  "cart_unique s \<longleftrightarrow>
     distinct (map (\<lambda>p. (cart_buyerId (snd p), cart_bookId (snd p))) (cartItems s))"

subsection \<open>A sample store\<close>

text \<open>
  The scenario of the specification: a seller (user 1) listed books 7 and 9, priced 12.50
  and 8.00, and a buyer (user 2) has both in the cart.
\<close>

definition book7 :: book where
  "book7 = \<lparr>book_id = 7, book_title = ''Dune'', book_author = ''Frank Herbert'',
     book_description = ''Paperback, some wear'', book_price = ''12.50'',
     book_condition = ''good'', book_category = ''Fiction'', book_imageUrl = None,
     book_sellerId = 1, book_isAvailable = Some True, book_createdAt = 1000\<rparr>"

definition book9 :: book where
  "book9 = \<lparr>book_id = 9, book_title = ''Emma'', book_author = ''Jane Austen'',
     book_description = ''Hardcover'', book_price = ''8.00'',
     book_condition = ''like_new'', book_category = ''Fiction'', book_imageUrl = None,
     book_sellerId = 1, book_isAvailable = Some True, book_createdAt = 2000\<rparr>"

definition buyer2 :: jwt_user where
  "buyer2 = \<lparr>jwt_userId = 2, jwt_email = ''buyer@example.com'', jwt_role = ''buyer''\<rparr>"

definition sample_store :: store where
  "sample_store =
     \<lparr>users = [(1, \<lparr>user_id = 1, user_email = ''seller@example.com'',
                    user_password = ''$2b$10$hash1'', user_name = ''Sam'',
                    user_role = ''seller'', user_createdAt = 100\<rparr>),
               (2, \<lparr>user_id = 2, user_email = ''buyer@example.com'',
                    user_password = ''$2b$10$hash2'', user_name = ''Bea'',
                    user_role = ''buyer'', user_createdAt = 200\<rparr>)],
      books = [(7, book7), (9, book9)], orders = [], orderItems = [],
      messages = [],
      cartItems = [(1, \<lparr>cart_id = 1, cart_buyerId = 2, cart_bookId = 7, cart_addedAt = 3000\<rparr>),
                   (2, \<lparr>cart_id = 2, cart_buyerId = 2, cart_bookId = 9, cart_addedAt = 4000\<rparr>)],
      currentUserId = 3, currentBookId = 10, currentOrderId = 1, currentOrderItemId = 1,
      currentMessageId = 1, currentCartItemId = 3\<rparr>"

text \<open>The sample store after the seller deleted book 9, which the cart still names.\<close>

definition vanished_store :: store where
  "vanished_store = snd (deleteBook sample_store 9)"

text \<open>
  For the examples, whose strings are all ASCII: on ASCII text \<^verbatim>\<open>toLowerCase\<close> turns the
  letters A to Z into a to z and leaves every other character as it is.
\<close>

definition ascii_lower :: "string \<Rightarrow> string" where
  "ascii_lower t =
     map (\<lambda>c. let n = (of_char c :: nat) in if 65 \<le> n \<and> n \<le> 90 then char_of (n + 32) else c) t"

text \<open>
  Two uploads by the buyer: a cover picture, and a text file that \<^verbatim>\<open>fileFilter\<close> refuses.
  \<open>extname_of_sample\<close> is \<^verbatim>\<open>path.extname\<close> on their two names.
\<close>

definition cover_png :: upload_file where
  "cover_png = \<lparr>file_originalname = ''cover.PNG'', file_mimetype = ''image/png''\<rparr>"

definition notes_txt :: upload_file where
  "notes_txt = \<lparr>file_originalname = ''notes.txt'', file_mimetype = ''text/plain''\<rparr>"

definition extname_of_sample :: "string \<Rightarrow> string" where
  "extname_of_sample name =
     (if name = ''cover.PNG'' then ''.PNG'' else if name = ''notes.txt'' then ''.txt'' else [])"

definition server_error :: response where
  "server_error = Response 500 (Message ''Only image files are allowed'')"

text \<open>Two token verifiers: one refuses every token, one accepts the buyer's token.\<close>

definition reject_all :: "string \<Rightarrow> jwt_user option" where
  "reject_all token = None"

definition accept_buyer :: "string \<Rightarrow> jwt_user option" where
  "accept_buyer token = (if token = ''buyer-token'' then Some buyer2 else None)"

section \<open>Appending to a table\<close>

text \<open>\<^verbatim>\<open>Map.set\<close> on a key that the table does not have appends the entry.\<close>

lemma update_fresh: "k \<notin> fst ` set al \<Longrightarrow> AList.update k v al = al @ [(k, v)]"
  by (induction al) auto

section \<open>The checkout loop\<close>

lemma merge_mark_unavailable: "merge_book b mark_unavailable = sold b"
  by (simp add: merge_book_def mark_unavailable_def no_update_def sold_def)

lemma order_step_None:
  "getBook s (cart_bookId ci) = None \<Longrightarrow> order_step ord ci s = s"
  by (simp add: order_step_def)

lemma order_step_Some:
  "getBook s (cart_bookId ci) = Some b \<Longrightarrow>
   order_step ord ci s =
     s\<lparr>currentOrderItemId := currentOrderItemId s + 1,
       orderItems := AList.update (currentOrderItemId s)
          \<lparr>item_id = currentOrderItemId s, item_orderId = order_id ord,
           item_bookId = cart_bookId ci, item_price = book_price b\<rparr> (orderItems s),
       books := AList.update (cart_bookId ci) (sold b) (books s)\<rparr>"
  by (simp add: order_step_def createOrderItem_def updateBook_def getBook_def Let_def
      merge_mark_unavailable)

lemma getBook_order_step:
  "getBook (order_step ord ci s) k =
     (if k = cart_bookId ci then map_option sold (getBook s k) else getBook s k)"
proof (cases "getBook s (cart_bookId ci)")
  case None
  then show ?thesis by (auto simp: order_step_None)
next
  case (Some b)
  then show ?thesis by (simp add: order_step_Some) (simp add: getBook_def update_conv')
qed

lemma sold_idem: "sold (sold b) = sold b"
  by (simp add: sold_def)

lemma getBook_fold_order_step:
  "getBook (fold (order_step ord) cart s) k =
     (if k \<in> cart_bookId ` set cart then map_option sold (getBook s k) else getBook s k)"
proof (induction cart arbitrary: s)
  case Nil
  then show ?case by simp
next
  case (Cons ci cart)
  show ?case
    by (simp add: Cons.IH getBook_order_step option.map_comp comp_def sold_idem)
qed

lemma created_items_cong:
  "(\<And>k. map_option book_price (bk k) = map_option book_price (bk' k)) \<Longrightarrow>
   created_items bk oid n cart = created_items bk' oid n cart"
proof (induction cart arbitrary: n)
  case Nil
  then show ?case by simp
next
  case (Cons ci cart)
  have "map_option book_price (bk (cart_bookId ci)) = map_option book_price (bk' (cart_bookId ci))"
    by (rule Cons.prems)
  moreover have "created_items bk oid m cart = created_items bk' oid m cart" for m
    by (rule Cons.IH) (rule Cons.prems)
  ultimately show ?case
    by (cases "bk (cart_bookId ci)"; cases "bk' (cart_bookId ci)") auto
qed

lemma price_sold: "book_price (sold b) = book_price b"
  by (simp add: sold_def)

lemma price_order_step:
  "map_option book_price (getBook (order_step ord ci s) k) = map_option book_price (getBook s k)"
  by (simp add: getBook_order_step option.map_comp comp_def price_sold)

lemma orderItems_fold_order_step:
  "list_all (\<lambda>(k, it). k < currentOrderItemId s) (orderItems s) \<Longrightarrow>
   orderItems (fold (order_step ord) cart s) =
     orderItems s @ created_items (getBook s) (order_id ord) (currentOrderItemId s) cart \<and>
   currentOrderItemId (fold (order_step ord) cart s) =
     currentOrderItemId s +
       int (length (created_items (getBook s) (order_id ord) (currentOrderItemId s) cart))"
proof (induction cart arbitrary: s)
  case Nil
  then show ?case by simp
next
  case (Cons ci cart)
  show ?case
  proof (cases "getBook s (cart_bookId ci)")
    case None
    with Cons show ?thesis by (simp add: order_step_None)
  next
    case (Some b)
    let ?s1 = "order_step ord ci s"
    let ?it = "\<lparr>item_id = currentOrderItemId s, item_orderId = order_id ord,
           item_bookId = cart_bookId ci, item_price = book_price b\<rparr>"
    have fresh: "currentOrderItemId s \<notin> fst ` set (orderItems s)"
      using Cons.prems by (auto simp: list_all_iff)
    have items1: "orderItems ?s1 = orderItems s @ [(currentOrderItemId s, ?it)]"
      using Some fresh by (simp add: order_step_Some update_fresh)
    have next1: "currentOrderItemId ?s1 = currentOrderItemId s + 1"
      using Some by (simp add: order_step_Some)
    have inv1: "list_all (\<lambda>(k, it). k < currentOrderItemId ?s1) (orderItems ?s1)"
      using Cons.prems by (auto simp: items1 next1 list_all_iff)
    have cong: "created_items (getBook ?s1) oid n cart = created_items (getBook s) oid n cart" for oid n
      by (rule created_items_cong) (rule price_order_step)
    from Cons.IH[OF inv1] show ?thesis
      using Some by (simp add: items1 next1 cong)
  qed
qed

lemma frame_order_step:
  "cartItems (order_step ord ci s) = cartItems s"
  "orders (order_step ord ci s) = orders s"
  "users (order_step ord ci s) = users s"
  "messages (order_step ord ci s) = messages s"
  "currentUserId (order_step ord ci s) = currentUserId s"
  "currentBookId (order_step ord ci s) = currentBookId s"
  "currentOrderId (order_step ord ci s) = currentOrderId s"
  "currentMessageId (order_step ord ci s) = currentMessageId s"
  "currentCartItemId (order_step ord ci s) = currentCartItemId s"
  by (cases "getBook s (cart_bookId ci)"; simp add: order_step_None order_step_Some)+

lemma frame_fold_order_step:
  "cartItems (fold (order_step ord) cart s) = cartItems s"
  "orders (fold (order_step ord) cart s) = orders s"
  "users (fold (order_step ord) cart s) = users s"
  "messages (fold (order_step ord) cart s) = messages s"
  "currentUserId (fold (order_step ord) cart s) = currentUserId s"
  "currentBookId (fold (order_step ord) cart s) = currentBookId s"
  "currentOrderId (fold (order_step ord) cart s) = currentOrderId s"
  "currentMessageId (fold (order_step ord) cart s) = currentMessageId s"
  "currentCartItemId (fold (order_step ord) cart s) = currentCartItemId s"
  by (induction cart arbitrary: s; simp add: frame_order_step)+


section \<open>Well-formed tables\<close>

lemma set_update_subset: "set (AList.update k v al) \<subseteq> insert (k, v) (set al)"
  by (induction al) auto

lemma table_ok_update:
  assumes "table_ok idf n tbl" "idf v = k" "k < n'" "n \<le> n'"
  shows "table_ok idf n' (AList.update k v tbl)"
proof -
  have "distinct (map fst (AList.update k v tbl))"
    using assms(1) by (simp add: table_ok_def distinct_update)
  moreover have "idf w = j \<and> j < n'" if "(j, w) \<in> set (AList.update k v tbl)" for j w
  proof -
    from that set_update_subset[of k v tbl] have "(j, w) = (k, v) \<or> (j, w) \<in> set tbl"
      by auto
    then show ?thesis
      using assms by (auto simp: table_ok_def list_all_iff)
  qed
  ultimately show ?thesis
    by (auto simp: table_ok_def list_all_iff)
qed

lemma set_delete_subset: "set (AList.delete k al) \<subseteq> set al"
  by (auto simp: AList.delete_eq)

lemma table_ok_delete: "table_ok idf n tbl \<Longrightarrow> table_ok idf n (AList.delete k tbl)"
  using set_delete_subset[of k tbl] by (auto simp: table_ok_def list_all_iff distinct_delete)

lemma table_ok_mono: "table_ok idf n tbl \<Longrightarrow> n \<le> n' \<Longrightarrow> table_ok idf n' tbl"
  by (auto simp: table_ok_def list_all_iff)

lemma table_ok_lookup:
  "table_ok idf n tbl \<Longrightarrow> (k, v) \<in> set tbl \<Longrightarrow> map_of tbl k = Some v \<and> idf v = k \<and> k < n"
  by (auto simp: table_ok_def list_all_iff)

lemma table_ok_fresh: "table_ok idf n tbl \<Longrightarrow> n \<notin> fst ` set tbl"
  by (auto simp: table_ok_def list_all_iff)

section \<open>Clearing a cart\<close>

lemma fold_delete:
  "fold (\<lambda>item m. AList.delete (idf item) m) items tbl =
     filter (\<lambda>(k, v). k \<notin> idf ` set items) tbl"
proof (induction items arbitrary: tbl)
  case Nil
  then show ?case by simp
next
  case (Cons a items)
  have "fold (\<lambda>item m. AList.delete (idf item) m) (a # items) tbl =
        filter (\<lambda>(k, v). k \<notin> idf ` set items) (AList.delete (idf a) tbl)"
    by (simp add: Cons.IH)
  also have "\<dots> = filter (\<lambda>(k, v). k \<notin> idf ` set (a # items)) tbl"
    by (auto simp: AList.delete_eq intro!: filter_cong)
  finally show ?case .
qed

lemma cartItems_clearCart:
  assumes "table_ok cart_id n (cartItems s)"
  shows "cartItems (snd (clearCart s buyer)) =
           filter (\<lambda>(k, c). cart_buyerId c \<noteq> buyer) (cartItems s)"
proof -
  have "(k \<notin> cart_id ` {c \<in> snd ` set (cartItems s). cart_buyerId c = buyer}) =
        (cart_buyerId c \<noteq> buyer)" if "(k, c) \<in> set (cartItems s)" for k c
  proof
    assume "k \<notin> cart_id ` {c \<in> snd ` set (cartItems s). cart_buyerId c = buyer}"
    moreover have "cart_id c = k" using table_ok_lookup[OF assms that] by simp
    ultimately show "cart_buyerId c \<noteq> buyer" using that by force
  next
    assume ne: "cart_buyerId c \<noteq> buyer"
    show "k \<notin> cart_id ` {c \<in> snd ` set (cartItems s). cart_buyerId c = buyer}"
    proof
      assume "k \<in> cart_id ` {c \<in> snd ` set (cartItems s). cart_buyerId c = buyer}"
      then obtain j d where d: "(j, d) \<in> set (cartItems s)" "cart_buyerId d = buyer" "cart_id d = k"
        by auto
      from table_ok_lookup[OF assms d(1)] d(3) have "map_of (cartItems s) k = Some d" by simp
      moreover from table_ok_lookup[OF assms that] have "map_of (cartItems s) k = Some c" by simp
      ultimately show False using ne d(2) by simp
    qed
  qed
  then show ?thesis
    by (simp add: clearCart_def Let_def fold_delete) (rule filter_cong, auto)
qed

lemma getCartItems_clearCart:
  assumes "table_ok cart_id n (cartItems s)"
  shows "getCartItems (snd (clearCart s buyer)) b =
           (if b = buyer then [] else getCartItems s b)"
  by (auto simp: getCartItems_def cartItems_clearCart[OF assms] filter_map comp_def
        case_prod_unfold intro!: arg_cong[where f="map snd"] filter_cong)

lemma frame_clearCart:
  "books (snd (clearCart s b)) = books s"
  "orders (snd (clearCart s b)) = orders s"
  "orderItems (snd (clearCart s b)) = orderItems s"
  "users (snd (clearCart s b)) = users s"
  "messages (snd (clearCart s b)) = messages s"
  "currentUserId (snd (clearCart s b)) = currentUserId s"
  "currentBookId (snd (clearCart s b)) = currentBookId s"
  "currentOrderId (snd (clearCart s b)) = currentOrderId s"
  "currentOrderItemId (snd (clearCart s b)) = currentOrderItemId s"
  "currentMessageId (snd (clearCart s b)) = currentMessageId s"
  "currentCartItemId (snd (clearCart s b)) = currentCartItemId s"
  by (simp_all add: clearCart_def Let_def)


section \<open>Preservation of the invariant by every store operation\<close>

lemma store_inv_new_store: "store_inv new_store"
  by (simp add: store_inv_def new_store_def table_ok_def)

lemma store_inv_createUser: "store_inv s \<Longrightarrow> store_inv (snd (createUser s iu now))"
  by (auto simp: store_inv_def createUser_def Let_def intro: table_ok_update)

lemma store_inv_createBook: "store_inv s \<Longrightarrow> store_inv (snd (createBook s ib seller now))"
  by (auto simp: store_inv_def createBook_def Let_def intro: table_ok_update)

lemma book_id_merge: "book_id (merge_book b upd) = book_id b"
  by (simp add: merge_book_def)

lemma store_inv_updateBook: 
  assumes "store_inv s"
  shows "store_inv (snd (updateBook s bid upd))"
proof (cases "map_of (books s) bid")
  case None
  then show ?thesis using assms by (simp add: updateBook_def)
next
  case (Some b)
  from assms have ok: "table_ok book_id (currentBookId s) (books s)"
    by (simp add: store_inv_def)
  from Some have "(bid, b) \<in> set (books s)" by (rule map_of_SomeD)
  from table_ok_lookup[OF ok this] have "book_id b = bid" "bid < currentBookId s" by simp_all
  then have "table_ok book_id (currentBookId s) (AList.update bid (merge_book b upd) (books s))"
    by (intro table_ok_update[OF ok]) (simp_all add: book_id_merge)
  then show ?thesis
    using assms Some by (simp add: updateBook_def store_inv_def Let_def)
qed

lemma store_inv_deleteBook: "store_inv s \<Longrightarrow> store_inv (snd (deleteBook s bid))"
  by (auto simp: store_inv_def deleteBook_def intro: table_ok_delete)

lemma store_inv_createOrder:
  "store_inv s \<Longrightarrow> store_inv (snd (createOrder s buyer t st now))"
  by (auto simp: store_inv_def createOrder_def Let_def list_all_iff intro: table_ok_update)

lemma store_inv_createOrderItem:
  assumes "store_inv s" "oid < currentOrderId s"
  shows "store_inv (snd (createOrderItem s oid bid price))"
proof -
  let ?it = "\<lparr>item_id = currentOrderItemId s, item_orderId = oid, item_bookId = bid,
               item_price = price\<rparr>"
  have "item_orderId w < currentOrderId s"
    if "(j, w) \<in> set (AList.update (currentOrderItemId s) ?it (orderItems s))" for j w
  proof -
    from that set_update_subset[of "currentOrderItemId s" ?it "orderItems s"]
    have "(j, w) = (currentOrderItemId s, ?it) \<or> (j, w) \<in> set (orderItems s)" by auto
    then show ?thesis using assms by (auto simp: store_inv_def list_all_iff)
  qed
  then show ?thesis
    using assms(1)
    by (auto simp: store_inv_def createOrderItem_def Let_def list_all_iff intro: table_ok_update)
qed

lemma store_inv_createMessage:
  "store_inv s \<Longrightarrow> store_inv (snd (createMessage s a b k c now))"
  by (auto simp: store_inv_def createMessage_def Let_def intro: table_ok_update)

lemma store_inv_addToCart: "store_inv s \<Longrightarrow> store_inv (snd (addToCart s buyer bid now))"
  by (auto simp: store_inv_def addToCart_def Let_def intro: table_ok_update)

lemma store_inv_removeFromCart: "store_inv s \<Longrightarrow> store_inv (snd (removeFromCart s buyer bid))"
  by (auto simp: store_inv_def removeFromCart_def intro: table_ok_delete split: option.splits)

lemma table_ok_filter: "table_ok idf n tbl \<Longrightarrow> table_ok idf n (filter P tbl)"
  by (auto simp: table_ok_def list_all_iff distinct_map_filter)

lemma store_inv_clearCart: "store_inv s \<Longrightarrow> store_inv (snd (clearCart s buyer))"
  by (auto simp: store_inv_def clearCart_def Let_def fold_delete intro: table_ok_filter)

lemma store_inv_order_step:
  assumes "store_inv s" "order_id ord < currentOrderId s"
  shows "store_inv (order_step ord ci s)"
proof (cases "getBook s (cart_bookId ci)")
  case None
  then show ?thesis using assms by (simp add: order_step_None)
next
  case (Some b)
  let ?s1 = "snd (createOrderItem s (order_id ord) (cart_bookId ci) (book_price b))"
  have "store_inv ?s1" using assms by (rule store_inv_createOrderItem)
  then have "store_inv (snd (updateBook ?s1 (cart_bookId ci) mark_unavailable))"
    by (rule store_inv_updateBook)
  then show ?thesis using Some by (simp add: order_step_def Let_def)
qed

lemma store_inv_fold_order_step:
  "store_inv s \<Longrightarrow> order_id ord < currentOrderId s \<Longrightarrow> store_inv (fold (order_step ord) cart s)"
proof (induction cart arbitrary: s)
  case Nil
  then show ?case by simp
next
  case (Cons ci cart)
  have "store_inv (order_step ord ci s)" using Cons.prems by (rule store_inv_order_step)
  moreover have "order_id ord < currentOrderId (order_step ord ci s)"
    using Cons.prems(2) by (simp add: frame_order_step)
  ultimately show ?case using Cons.IH by simp
qed

section \<open>The checkout as a whole\<close>

lemma createOrder_eq:
  "createOrder s (jwt_userId u) t ''completed'' now =
     (placed_order s u t now,
      s\<lparr>currentOrderId := currentOrderId s + 1,
        orders := AList.update (currentOrderId s) (placed_order s u t now) (orders s)\<rparr>)"
  by (simp add: createOrder_def placed_order_def Let_def)

lemma checkout_unfold:
  assumes "getCartItems s (jwt_userId u) \<noteq> []"
  shows "post_api_orders (Some t) now u s =
     (Response 201 (OrderBody (placed_order s u t now)),
      snd (clearCart
        (fold (order_step (placed_order s u t now)) (getCartItems s (jwt_userId u))
           (snd (createOrder s (jwt_userId u) t ''completed'' now)))
        (jwt_userId u)))"
  using assms by (simp add: post_api_orders_def Let_def createOrder_eq)

lemma checkout_inv:
  assumes "store_inv s" "getCartItems s (jwt_userId u) \<noteq> []"
  shows "store_inv (snd (post_api_orders (Some t) now u s))"
proof -
  let ?s1 = "snd (createOrder s (jwt_userId u) t ''completed'' now)"
  have "store_inv ?s1" using assms(1) by (rule store_inv_createOrder)
  moreover have "order_id (placed_order s u t now) < currentOrderId ?s1"
    by (simp add: createOrder_eq) (simp add: placed_order_def)
  ultimately have "store_inv (fold (order_step (placed_order s u t now))
      (getCartItems s (jwt_userId u)) ?s1)"
    by (rule store_inv_fold_order_step)
  then show ?thesis
    by (simp add: checkout_unfold[OF assms(2)] store_inv_clearCart)
qed

lemma checkout_orders:
  assumes "store_inv s" "getCartItems s (jwt_userId u) \<noteq> []"
  shows "orders (snd (post_api_orders (Some t) now u s)) =
           orders s @ [(currentOrderId s, placed_order s u t now)]"
proof -
  from assms(1) have "currentOrderId s \<notin> fst ` set (orders s)"
    by (auto simp: store_inv_def dest: table_ok_fresh)
  then show ?thesis
    by (simp add: checkout_unfold[OF assms(2)] frame_clearCart frame_fold_order_step
        createOrder_eq update_fresh)
qed

lemma checkout_orderItems:
  assumes "store_inv s" "getCartItems s (jwt_userId u) \<noteq> []"
  shows "orderItems (snd (post_api_orders (Some t) now u s)) =
           orderItems s @
           created_items (getBook s) (currentOrderId s) (currentOrderItemId s)
             (getCartItems s (jwt_userId u))"
proof -
  let ?s1 = "snd (createOrder s (jwt_userId u) t ''completed'' now)"
  have s1: "orderItems ?s1 = orderItems s" "currentOrderItemId ?s1 = currentOrderItemId s"
    "getBook ?s1 = getBook s"
    by (simp_all add: createOrder_eq getBook_def fun_eq_iff)
  from assms(1) have "list_all (\<lambda>(k, it). k < currentOrderItemId ?s1) (orderItems ?s1)"
    by (auto simp: s1 store_inv_def table_ok_def list_all_iff)
  from orderItems_fold_order_step[OF this] show ?thesis
    by (simp add: checkout_unfold[OF assms(2)] frame_clearCart s1) (simp add: placed_order_def)
qed

lemma checkout_getBook:
  assumes "getCartItems s (jwt_userId u) \<noteq> []"
  shows "getBook (snd (post_api_orders (Some t) now u s)) k =
           (if k \<in> cart_bookId ` set (getCartItems s (jwt_userId u))
            then map_option sold (getBook s k) else getBook s k)"
proof -
  have "getBook (snd (clearCart s0 b)) = getBook s0" for s0 b
    by (simp add: getBook_def fun_eq_iff frame_clearCart)
  moreover have "getBook (snd (createOrder s (jwt_userId u) t ''completed'' now)) = getBook s"
    by (simp add: createOrder_eq getBook_def fun_eq_iff)
  ultimately show ?thesis
    by (simp add: checkout_unfold[OF assms] getBook_fold_order_step)
qed

lemma getCartItems_cong: "cartItems s1 = cartItems s2 \<Longrightarrow> getCartItems s1 b = getCartItems s2 b"
  by (simp add: getCartItems_def)

lemma checkout_cart:
  assumes "store_inv s" "getCartItems s (jwt_userId u) \<noteq> []"
  shows "getCartItems (snd (post_api_orders (Some t) now u s)) b =
           (if b = jwt_userId u then [] else getCartItems s b)"
proof -
  let ?s2 = "fold (order_step (placed_order s u t now)) (getCartItems s (jwt_userId u))
           (snd (createOrder s (jwt_userId u) t ''completed'' now))"
  have c: "cartItems ?s2 = cartItems s"
    by (simp add: frame_fold_order_step createOrder_eq)
  with assms(1) have "table_ok cart_id (currentCartItemId s) (cartItems ?s2)"
    by (simp add: store_inv_def)
  then have "getCartItems (snd (clearCart ?s2 (jwt_userId u))) b =
           (if b = jwt_userId u then [] else getCartItems ?s2 b)"
    by (rule getCartItems_clearCart)
  moreover have "getCartItems ?s2 b = getCartItems s b"
    using c by (rule getCartItems_cong)
  ultimately show ?thesis
    by (simp only: checkout_unfold[OF assms(2)] snd_conv)
qed

text \<open>The routes that write to the store keep it well-formed.\<close>

lemma store_inv_post_api_orders:
  assumes "store_inv s"
  shows "store_inv (snd (post_api_orders total_field now u s))"
proof (cases "getCartItems s (jwt_userId u) = []")
  case True
  with assms show ?thesis by (simp add: post_api_orders_def)
next
  case False
  show ?thesis
  proof (cases total_field)
    case None
    with assms show ?thesis by (simp add: post_api_orders_def Let_def)
  next
    case (Some t)
    with checkout_inv[OF assms False] show ?thesis by simp
  qed
qed

lemma store_inv_apply_cart_op: "store_inv s \<Longrightarrow> store_inv (apply_cart_op op s)"
  by (cases op)
     (simp_all add: post_api_cart_def delete_api_cart_bookId_def split_beta
        store_inv_addToCart store_inv_removeFromCart)

lemma store_inv_book_routes:
  assumes "store_inv s"
  shows "store_inv (snd (post_api_books extname toLowerCase errorResponse part parsed now u s))"
    and "store_inv (snd (put_api_books_id bid upd u s))"
    and "store_inv (snd (delete_api_books_id bid u s))"
proof -
  show "store_inv (snd (post_api_books extname toLowerCase errorResponse part parsed now u s))"
    using assms store_inv_createBook[OF assms]
    by (auto simp: post_api_books_def split_beta split: option.splits)
  show "store_inv (snd (put_api_books_id bid upd u s))"
  proof (cases "updateBook s bid (the upd)")
    case (Pair a s1)
    with store_inv_updateBook[OF assms, of bid "the upd"] have "store_inv s1" by simp
    with Pair assms show ?thesis
      by (auto simp: put_api_books_id_def split: option.splits)
  qed
  show "store_inv (snd (delete_api_books_id bid u s))"
    using assms store_inv_deleteBook[OF assms]
    by (auto simp: delete_api_books_id_def split: option.splits)
qed

section \<open>The order lines of a checkout\<close>

lemma created_items_lines:
  "map (\<lambda>(k, it). (item_orderId it, item_bookId it, item_price it)) (created_items bk oid n cart) =
   map (\<lambda>ci. (oid, cart_bookId ci, book_price (the (bk (cart_bookId ci)))))
     (filter (\<lambda>ci. bk (cart_bookId ci) \<noteq> None) cart)"
  by (induction cart arbitrary: n) (auto split: option.splits)

lemma created_items_orderId:
  "list_all (\<lambda>(k, it). item_orderId it = oid) (created_items bk oid n cart)"
  by (induction cart arbitrary: n) (auto split: option.splits)

lemma checkout_getOrderItems:
  assumes "store_inv s" "getCartItems s (jwt_userId u) \<noteq> []"
  shows "getOrderItems (snd (post_api_orders (Some t) now u s)) (currentOrderId s) =
           map snd (created_items (getBook s) (currentOrderId s) (currentOrderItemId s)
             (getCartItems s (jwt_userId u)))"
proof -
  from assms(1) have "filter (\<lambda>item. item_orderId item = currentOrderId s) (map snd (orderItems s)) = []"
    by (auto simp: store_inv_def list_all_iff filter_empty_conv)
  moreover have "filter (\<lambda>item. item_orderId item = oid) (map snd (created_items bk oid n cart)) =
      map snd (created_items bk oid n cart)" for bk oid n cart
    using created_items_orderId[of oid bk n cart] by (auto simp: list_all_iff filter_id_conv)
  ultimately show ?thesis
    by (simp add: getOrderItems_def checkout_orderItems[OF assms])
qed

lemma checkout_lines:
  assumes "store_inv s" "getCartItems s (jwt_userId u) \<noteq> []"
  shows "map (\<lambda>it. (item_bookId it, item_price it))
           (getOrderItems (snd (post_api_orders (Some t) now u s)) (currentOrderId s)) =
         map (\<lambda>ci. (cart_bookId ci, book_price (the (getBook s (cart_bookId ci)))))
           (filter (\<lambda>ci. getBook s (cart_bookId ci) \<noteq> None) (getCartItems s (jwt_userId u)))"
proof -
  have "map (\<lambda>it. (item_bookId it, item_price it)) (map snd (created_items bk oid n cart)) =
        map (\<lambda>ci. (cart_bookId ci, book_price (the (bk (cart_bookId ci)))))
          (filter (\<lambda>ci. bk (cart_bookId ci) \<noteq> None) cart)" for bk oid n cart
    using arg_cong[OF created_items_lines[of bk oid n cart], of "map snd"]
    by (simp add: comp_def case_prod_unfold)
  then show ?thesis by (simp add: checkout_getOrderItems[OF assms])
qed

section \<open>The sample store\<close>

lemma sample_store_inv: "store_inv sample_store"
  by (simp add: store_inv_def table_ok_def sample_store_def book7_def book9_def)

lemma sample_cart:
  "getCartItems sample_store (jwt_userId buyer2) =
     [\<lparr>cart_id = 1, cart_buyerId = 2, cart_bookId = 7, cart_addedAt = 3000\<rparr>,
      \<lparr>cart_id = 2, cart_buyerId = 2, cart_bookId = 9, cart_addedAt = 4000\<rparr>]"
  by (simp add: getCartItems_def sample_store_def buyer2_def)

lemma sample_books:
  "getBook sample_store 7 = Some book7" "getBook sample_store 9 = Some book9"
  by (simp_all add: getBook_def sample_store_def)

lemma sample_fields:
  "orders sample_store = []" "orderItems sample_store = []" "jwt_userId buyer2 = 2"
  "book_price book7 = ''12.50''" "book_price book9 = ''8.00''"
  by (simp_all add: sample_store_def buyer2_def book7_def book9_def)

lemma vanished_store_inv: "store_inv vanished_store"
  unfolding vanished_store_def using sample_store_inv by (rule store_inv_deleteBook)

lemma vanished_cart:
  "getCartItems vanished_store (jwt_userId buyer2) =
     [\<lparr>cart_id = 1, cart_buyerId = 2, cart_bookId = 7, cart_addedAt = 3000\<rparr>,
      \<lparr>cart_id = 2, cart_buyerId = 2, cart_bookId = 9, cart_addedAt = 4000\<rparr>]"
  using sample_cart by (simp add: vanished_store_def getCartItems_def deleteBook_def)

lemma vanished_books:
  "getBook vanished_store 7 = Some book7" "getBook vanished_store 9 = None"
  by (simp_all add: vanished_store_def getBook_def deleteBook_def sample_store_def)

section \<open>Available books, order items and updates\<close>

lemma getBooks_available:
  "x \<in> set (getBooks toLowerCase s filters) \<Longrightarrow>
   x \<in> snd ` set (books s) \<and> book_isAvailable x = Some True"
  by (auto simp: getBooks_def Let_def split: option.splits if_splits)

lemma created_items_present:
  "(k, it) \<in> set (created_items bk oid n cart) \<Longrightarrow>
   \<exists>b. bk (item_bookId it) = Some b \<and> item_price it = book_price b"
proof (induction cart arbitrary: n)
  case Nil
  then show ?case by simp
next
  case (Cons ci cart)
  show ?case
  proof (cases "bk (cart_bookId ci)")
    case None
    with Cons show ?thesis by simp
  next
    case (Some b)
    with Cons.prems have "(k, it) = (n, \<lparr>item_id = n, item_orderId = oid,
        item_bookId = cart_bookId ci, item_price = book_price b\<rparr>) \<or>
        (k, it) \<in> set (created_items bk oid (n + 1) cart)"
      by simp
    then show ?thesis
    proof
      assume "(k, it) = (n, \<lparr>item_id = n, item_orderId = oid,
        item_bookId = cart_bookId ci, item_price = book_price b\<rparr>)"
      with Some show ?thesis by auto
    next
      assume "(k, it) \<in> set (created_items bk oid (n + 1) cart)"
      then show ?thesis by (rule Cons.IH)
    qed
  qed
qed

lemma frame_updateBook: "orderItems (snd (updateBook s bid upd)) = orderItems s"
  by (simp add: updateBook_def Let_def split: option.splits)

lemma frame_put_api_books_id: "orderItems (snd (put_api_books_id bid parsed u s)) = orderItems s"
proof (cases "updateBook s bid (the parsed)")
  case (Pair a s1)
  with frame_updateBook[of s bid "the parsed"] have "orderItems s1 = orderItems s" by simp
  with Pair show ?thesis
    by (auto simp: put_api_books_id_def split: option.splits)
qed

section \<open>Uniqueness of cart entries\<close>

lemma distinct_update_values:
  "distinct (map (\<lambda>p. g (snd p)) al) \<Longrightarrow> g v \<notin> (\<lambda>p. g (snd p)) ` set al \<Longrightarrow>
   distinct (map (\<lambda>p. g (snd p)) (AList.update k v al))"
proof (induction al)
  case Nil
  then show ?case by simp
next
  case (Cons p al)
  show ?case
  proof (cases "fst p = k")
    case True
    with Cons.prems show ?thesis by (cases p) auto
  next
    case False
    have "g (snd p) \<notin> (\<lambda>p. g (snd p)) ` set (AList.update k v al)"
    proof
      assume "g (snd p) \<in> (\<lambda>p. g (snd p)) ` set (AList.update k v al)"
      then obtain q where q: "q \<in> set (AList.update k v al)" "g (snd q) = g (snd p)" by auto
      with set_update_subset[of k v al] have "q = (k, v) \<or> q \<in> set al" by auto
      then show False
      proof
        assume "q = (k, v)"
        with q(2) Cons.prems(2) show False by simp
      next
        assume "q \<in> set al"
        with q(2) Cons.prems(1) show False by (simp add: image_iff) metis
      qed
    qed
    moreover have "distinct (map (\<lambda>p. g (snd p)) (AList.update k v al))"
      using Cons by simp
    ultimately show ?thesis using False by (cases p) simp
  qed
qed

lemma cart_unique_addToCart:
  assumes "cart_unique s" "bookId \<notin> cart_bookId ` set (getCartItems s buyer)"
  shows "cart_unique (snd (addToCart s buyer bookId now))"
proof -
  let ?g = "\<lambda>c. (cart_buyerId c, cart_bookId c)"
  let ?v = "\<lparr>cart_id = currentCartItemId s, cart_buyerId = buyer, cart_bookId = bookId,
              cart_addedAt = now\<rparr>"
  have "?g ?v \<notin> (\<lambda>p. ?g (snd p)) ` set (cartItems s)"
  proof
    assume "?g ?v \<in> (\<lambda>p. ?g (snd p)) ` set (cartItems s)"
    then obtain p where "p \<in> set (cartItems s)" "cart_buyerId (snd p) = buyer"
      "cart_bookId (snd p) = bookId" by auto
    then have "bookId \<in> cart_bookId ` set (getCartItems s buyer)"
      by (force simp: getCartItems_def image_iff)
    with assms(2) show False by simp
  qed
  with assms(1) have "distinct (map (\<lambda>p. ?g (snd p))
      (AList.update (currentCartItemId s) ?v (cartItems s)))"
    unfolding cart_unique_def by (rule distinct_update_values)
  then show ?thesis
    by (simp add: cart_unique_def addToCart_def Let_def)
qed

lemma cart_unique_removeFromCart:
  assumes "cart_unique s"
  shows "cart_unique (snd (removeFromCart s buyer bookId))"
  using assms
  by (auto simp: cart_unique_def removeFromCart_def AList.delete_eq distinct_map_filter
      split: option.splits)

lemma cart_unique_getCartItems:
  assumes "cart_unique s"
  shows "distinct (map cart_bookId (getCartItems s buyer))"
proof -
  have "distinct (map cart_bookId (filter (\<lambda>c. cart_buyerId c = buyer) (map snd tbl)))"
    if "distinct (map (\<lambda>p. (cart_buyerId (snd p), cart_bookId (snd p))) tbl)"
    for tbl :: "(int \<times> cart_item) list"
    using that by (induction tbl) (auto simp: image_iff)
  from this[of "cartItems s"] assms show ?thesis
    unfolding cart_unique_def getCartItems_def by blast
qed

section \<open>Message threads\<close>

lemma thread_of_sym: "thread_of rows a b = thread_of rows b a"
  unfolding thread_of_def
  by (rule arg_cong[where f = "sort_key msg_createdAt"], rule filter_cong) auto

section \<open>Claims\<close>

text \<open>
  C1. For every buyer with a non-empty cart of N entries whose listings all exist in the
  store, a checkout that supplies a total answers 201 with the created order; that order
  has status \<open>completed\<close> and stores the supplied total as given; it is the one order
  appended to the order table; exactly N order items are appended, all under that order,
  entry by entry with the cart entry's listing and the price that listing has in the
  store at checkout; every referenced listing ends up with its availability flag false;
  and the buyer's cart is empty afterwards.
\<close>

theorem checkout_creates_order:
  assumes inv: "store_inv s"
    and cart: "getCartItems s (jwt_userId u) = cart" "cart \<noteq> []"
    and listed: "\<forall>ci \<in> set cart. getBook s (cart_bookId ci) \<noteq> None"
    and run: "post_api_orders (Some t) now u s = (r, s')"
  shows "\<exists>ord new.
           r = Response 201 (OrderBody ord) \<and>
           order_status ord = ''completed'' \<and> order_total ord = t \<and>
           order_buyerId ord = jwt_userId u \<and>
           orders s' = orders s @ [(order_id ord, ord)] \<and>
           orderItems s' = orderItems s @ new \<and> length new = length cart \<and>
           getOrderItems s' (order_id ord) = map snd new \<and>
           map (\<lambda>it. (item_bookId it, item_price it)) (map snd new) =
             map (\<lambda>ci. (cart_bookId ci, book_price (the (getBook s (cart_bookId ci))))) cart \<and>
           (\<forall>ci \<in> set cart. \<exists>b. getBook s' (cart_bookId ci) = Some b \<and>
                                book_isAvailable b = Some False) \<and>
           getCartItems s' (jwt_userId u) = []"
proof -
  from cart have ne: "getCartItems s (jwt_userId u) \<noteq> []" by simp
  let ?ord = "placed_order s u t now"
  let ?new = "created_items (getBook s) (currentOrderId s) (currentOrderItemId s) cart"
  from run have r: "r = Response 201 (OrderBody ?ord)"
    and s': "s' = snd (post_api_orders (Some t) now u s)"
    by (simp_all add: checkout_unfold[OF ne])
  have all: "filter (\<lambda>ci. getBook s (cart_bookId ci) \<noteq> None) cart = cart"
    using listed by (simp add: filter_id_conv)
  have lines: "map (\<lambda>it. (item_bookId it, item_price it)) (map snd ?new) =
      map (\<lambda>ci. (cart_bookId ci, book_price (the (getBook s (cart_bookId ci))))) cart"
    using checkout_lines[OF inv ne, of t now]
    unfolding checkout_getOrderItems[OF inv ne] cart(1) all .
  have len: "length ?new = length cart"
    using arg_cong[OF lines, of length] by simp
  have sold: "\<exists>b. getBook s' (cart_bookId ci) = Some b \<and> book_isAvailable b = Some False"
    if "ci \<in> set cart" for ci
  proof -
    from that listed obtain b where "getBook s (cart_bookId ci) = Some b" by auto
    with that show ?thesis
      by (simp add: s' checkout_getBook[OF ne] cart(1) sold_def)
  qed
  have "r = Response 201 (OrderBody ?ord)" by (rule r)
  moreover have "order_status ?ord = ''completed''" "order_total ?ord = t"
    "order_buyerId ?ord = jwt_userId u" "order_id ?ord = currentOrderId s"
    by (simp_all add: placed_order_def)
  moreover have "orders s' = orders s @ [(currentOrderId s, ?ord)]"
    by (simp add: s' checkout_orders[OF inv ne])
  moreover have "orderItems s' = orderItems s @ ?new"
    by (simp add: s' checkout_orderItems[OF inv ne] cart(1))
  moreover have "getOrderItems s' (currentOrderId s) = map snd ?new"
    by (simp add: s' checkout_getOrderItems[OF inv ne] cart(1))
  moreover have "getCartItems s' (jwt_userId u) = []"
    by (simp add: s' checkout_cart[OF inv ne])
  ultimately show ?thesis
    using len lines sold by (intro exI[of _ ?ord] exI[of _ ?new]) simp
qed

theorem checkout_creates_order_witness:
  "\<exists>ord new.
     fst (post_api_orders (Some ''24.49'') 5000 buyer2 sample_store) =
       Response 201 (OrderBody ord) \<and>
     order_status ord = ''completed'' \<and> order_total ord = ''24.49'' \<and>
     orders (snd (post_api_orders (Some ''24.49'') 5000 buyer2 sample_store)) =
       [(order_id ord, ord)] \<and>
     orderItems (snd (post_api_orders (Some ''24.49'') 5000 buyer2 sample_store)) = new \<and>
     length new = 2 \<and>
     map (\<lambda>it. (item_bookId it, item_price it)) (map snd new) =
       [(7, ''12.50''), (9, ''8.00'')] \<and>
     getCartItems (snd (post_api_orders (Some ''24.49'') 5000 buyer2 sample_store)) 2 = []"
proof -
  let ?cart = "[\<lparr>cart_id = 1, cart_buyerId = 2, cart_bookId = 7, cart_addedAt = 3000\<rparr>,
      \<lparr>cart_id = 2, cart_buyerId = 2, cart_bookId = 9, cart_addedAt = 4000\<rparr>]"
  have ne: "?cart \<noteq> []" by simp
  have listed: "\<forall>ci \<in> set ?cart. getBook sample_store (cart_bookId ci) \<noteq> None"
    by (simp add: sample_books)
  have run: "post_api_orders (Some ''24.49'') 5000 buyer2 sample_store =
      (fst (post_api_orders (Some ''24.49'') 5000 buyer2 sample_store),
       snd (post_api_orders (Some ''24.49'') 5000 buyer2 sample_store))"
    by simp
  from checkout_creates_order[OF sample_store_inv sample_cart ne listed run]
  obtain ord new where
    "fst (post_api_orders (Some ''24.49'') 5000 buyer2 sample_store) =
       Response 201 (OrderBody ord)"
    "order_status ord = ''completed''" "order_total ord = ''24.49''"
    "orders (snd (post_api_orders (Some ''24.49'') 5000 buyer2 sample_store)) =
       orders sample_store @ [(order_id ord, ord)]"
    "orderItems (snd (post_api_orders (Some ''24.49'') 5000 buyer2 sample_store)) =
       orderItems sample_store @ new"
    "length new = length ?cart"
    "map (\<lambda>it. (item_bookId it, item_price it)) (map snd new) =
       map (\<lambda>ci. (cart_bookId ci, book_price (the (getBook sample_store (cart_bookId ci)))))
         ?cart"
    "getCartItems (snd (post_api_orders (Some ''24.49'') 5000 buyer2 sample_store))
       (jwt_userId buyer2) = []"
    by blast
  then show ?thesis
    by (intro exI[of _ ord] exI[of _ new]) (simp add: sample_books sample_fields)
qed

text \<open>
  C2, as the code has it. \<^verbatim>\<open>addToCart\<close> appends a new entry without looking for one of the
  same buyer and listing, so a buyer who adds a listing twice holds it twice (the
  counterexample below). What holds: starting from a store whose cart entries are pairwise
  distinct in buyer and listing, after any sequence of add-to-cart and remove-from-cart
  requests in which no request adds a listing that the buyer's cart holds at that moment,
  the cart entries are still pairwise distinct in buyer and listing, and no buyer's cart
  names a listing twice.
\<close>

theorem cart_unique_without_readd:
  assumes "cart_unique s" "no_readd s ops"
  shows "cart_unique (fold apply_cart_op ops s) \<and>
         distinct (map cart_bookId (getCartItems (fold apply_cart_op ops s) buyer))"
proof -
  from assms have "cart_unique (fold apply_cart_op ops s)"
  proof (induction ops arbitrary: s)
    case Nil
    then show ?case by simp
  next
    case (Cons op ops)
    show ?case
    proof (cases op)
      case (AddToCart b k now)
      with Cons.prems have "cart_unique (apply_cart_op op s)"
        by (simp add: post_api_cart_def split_beta cart_unique_addToCart)
      with Cons.prems AddToCart show ?thesis by (simp add: Cons.IH)
    next
      case (RemoveFromCart b k)
      with Cons.prems have "cart_unique (apply_cart_op op s)"
        by (simp add: delete_api_cart_bookId_def cart_unique_removeFromCart)
      with Cons.prems RemoveFromCart show ?thesis by (simp add: Cons.IH)
    qed
  qed
  then show ?thesis by (simp add: cart_unique_getCartItems)
qed

theorem cart_unique_without_readd_witness:
  "cart_unique (fold apply_cart_op
      [AddToCart 2 7 3000, AddToCart 2 9 4000, RemoveFromCart 2 7, AddToCart 2 7 5000]
      new_store) \<and>
   distinct (map cart_bookId (getCartItems (fold apply_cart_op
      [AddToCart 2 7 3000, AddToCart 2 9 4000, RemoveFromCart 2 7, AddToCart 2 7 5000]
      new_store) 2))"
proof -
  have u: "cart_unique new_store" by (simp add: cart_unique_def new_store_def)
  have n: "no_readd new_store
      [AddToCart 2 7 3000, AddToCart 2 9 4000, RemoveFromCart 2 7, AddToCart 2 7 5000]"
    by (simp add: post_api_cart_def delete_api_cart_bookId_def addToCart_def removeFromCart_def
        getCartItems_def new_store_def Let_def)
  from cart_unique_without_readd[OF u n] show ?thesis .
qed

theorem cart_duplicate_counterexample:
  "map cart_bookId
     (getCartItems
        (snd (post_api_cart 7 4000 buyer2 (snd (post_api_cart 7 3000 buyer2 new_store)))) 2) =
     [7, 7] \<and>
   \<not> distinct (map cart_bookId
     (getCartItems
        (snd (post_api_cart 7 4000 buyer2 (snd (post_api_cart 7 3000 buyer2 new_store)))) 2))"
  by (simp add: post_api_cart_def addToCart_def getCartItems_def new_store_def buyer2_def Let_def)

text \<open>
  C3, as the code has it. A request without a bearer token is answered 401
  \<open>Access token required\<close>; a token that \<^verbatim>\<open>jwt.verify\<close> refuses (invalid or expired) is
  answered 403 \<open>Invalid token\<close>, not 401 (the counterexample below); an accepted token lets
  the handler run with the verified user. A verified user whose role is not \<open>seller\<close> is
  answered 403 by \<^verbatim>\<open>GET /api/seller/books\<close> always, and by \<^verbatim>\<open>POST /api/books\<close> when the
  upload middleware passes the request on; when that middleware refuses the upload, the
  error handler answers before the handler looks at the role. In each of these cases the
  store is returned unchanged.
\<close>

theorem gate_rejections:
  "(header_token authHeader = None \<longrightarrow>
      authenticated verify authHeader handler s =
        (Response 401 (Message ''Access token required''), s)) \<and>
   (\<forall>token. header_token authHeader = Some token \<and> verify token = None \<longrightarrow>
      authenticated verify authHeader handler s = (Response 403 (Message ''Invalid token''), s)) \<and>
   (\<forall>token u. header_token authHeader = Some token \<and> verify token = Some u \<longrightarrow>
      authenticated verify authHeader handler s = handler u s) \<and>
   (\<forall>token u. header_token authHeader = Some token \<and> verify token = Some u \<and>
        jwt_role u \<noteq> ''seller'' \<longrightarrow>
      authenticated verify authHeader get_api_seller_books s =
        (Response 403 (Message ''Only sellers can access this endpoint''), s) \<and>
      (upload_single_image extname toLowerCase part \<longrightarrow>
         authenticated verify authHeader
           (post_api_books extname toLowerCase errorResponse part parsed now) s =
         (Response 403 (Message ''Only sellers can create books''), s)) \<and>
      (\<not> upload_single_image extname toLowerCase part \<longrightarrow>
         authenticated verify authHeader
           (post_api_books extname toLowerCase errorResponse part parsed now) s =
         (errorResponse, s)))"
  by (simp add: authenticated_def authenticateToken_def get_api_seller_books_def
      post_api_books_def)

theorem gate_rejections_witness:
  "authenticated reject_all None (post_api_orders (Some ''24.49'') 5000) sample_store =
     (Response 401 (Message ''Access token required''), sample_store) \<and>
   authenticated reject_all (Some ''Bearer expired'') (post_api_orders (Some ''24.49'') 5000)
       sample_store =
     (Response 403 (Message ''Invalid token''), sample_store) \<and>
   authenticated accept_buyer (Some ''Bearer buyer-token'') get_api_seller_books sample_store =
     (Response 403 (Message ''Only sellers can access this endpoint''), sample_store) \<and>
   authenticated accept_buyer (Some ''Bearer buyer-token'')
       (post_api_books extname_of_sample ascii_lower server_error (ImageFile cover_png) None 5000)
       sample_store =
     (Response 403 (Message ''Only sellers can create books''), sample_store) \<and>
   authenticated accept_buyer (Some ''Bearer buyer-token'')
       (post_api_books extname_of_sample ascii_lower server_error (ImageFile notes_txt) None 5000)
       sample_store =
     (server_error, sample_store)"
proof -
  have tok: "header_token (Some ''Bearer buyer-token'') = Some ''buyer-token''"
    "header_token (Some ''Bearer expired'') = Some ''expired''" "header_token None = None"
    by (simp_all add: header_token_def)
  have ver: "accept_buyer ''buyer-token'' = Some buyer2" "reject_all ''expired'' = None"
    "jwt_role buyer2 \<noteq> ''seller''"
    by (simp_all add: accept_buyer_def reject_all_def buyer2_def)
  have accepted: "upload_single_image extname_of_sample ascii_lower (ImageFile cover_png)"
    by code_simp
  have refused: "\<not> upload_single_image extname_of_sample ascii_lower (ImageFile notes_txt)"
    by code_simp
  from gate_rejections[of None reject_all "post_api_orders (Some ''24.49'') 5000" sample_store]
    gate_rejections[of "Some ''Bearer expired''" reject_all
      "post_api_orders (Some ''24.49'') 5000" sample_store]
    gate_rejections[of "Some ''Bearer buyer-token''" accept_buyer
      "post_api_orders (Some ''24.49'') 5000" sample_store
      extname_of_sample ascii_lower "ImageFile cover_png" server_error None 5000]
    gate_rejections[of "Some ''Bearer buyer-token''" accept_buyer
      "post_api_orders (Some ''24.49'') 5000" sample_store
      extname_of_sample ascii_lower "ImageFile notes_txt" server_error None 5000]
  show ?thesis
    by (simp add: tok ver accepted refused)
qed

theorem invalid_token_counterexample:
  "authenticateToken reject_all (Some ''Bearer expired'') =
     Reject (Response 403 (Message ''Invalid token''))"
  by (simp add: authenticateToken_def header_token_def reject_all_def)

text \<open>
  C4. For every buyer whose cart is empty, the checkout answers 400 \<open>Cart is empty\<close> and
  returns the store as it was: no order, no order item, no other change.
\<close>

theorem empty_cart_rejected:
  "getCartItems s (jwt_userId u) = [] \<Longrightarrow>
   post_api_orders total_field now u s = (Response 400 (Message ''Cart is empty''), s)"
  by (simp add: post_api_orders_def)

theorem empty_cart_rejected_witness:
  "post_api_orders (Some ''24.49'') 5000 buyer2 new_store =
     (Response 400 (Message ''Cart is empty''), new_store)"
proof -
  have "getCartItems new_store (jwt_userId buyer2) = []"
    by (simp add: getCartItems_def new_store_def)
  then show ?thesis by (rule empty_cart_rejected)
qed

text \<open>
  C5. For every cart entry of a checkout whose listing is absent from the store, the
  checkout still answers 201 with the created order and appends that order; the order
  items it appends are those of the entries whose listing exists, in cart order, so none
  of them names the absent listing; the listing is still absent afterwards, with no
  record created or flagged for it; every entry whose listing exists is processed in
  full, its listing ending as the old record with the availability flag false; every
  listing that no cart entry names is as before; and the buyer's cart is empty.
\<close>

theorem checkout_skips_vanished_listing:
  assumes inv: "store_inv s"
    and cart: "getCartItems s (jwt_userId u) = cart" "ci \<in> set cart"
    and gone: "getBook s (cart_bookId ci) = None"
    and run: "post_api_orders (Some t) now u s = (r, s')"
  shows "\<exists>ord new.
           r = Response 201 (OrderBody ord) \<and>
           orders s' = orders s @ [(order_id ord, ord)] \<and>
           orderItems s' = orderItems s @ new \<and>
           getOrderItems s' (order_id ord) = map snd new \<and>
           map (\<lambda>it. (item_bookId it, item_price it)) (map snd new) =
             map (\<lambda>c. (cart_bookId c, book_price (the (getBook s (cart_bookId c)))))
               (filter (\<lambda>c. getBook s (cart_bookId c) \<noteq> None) cart) \<and>
           (\<forall>it \<in> snd ` set new. item_bookId it \<noteq> cart_bookId ci) \<and>
           getBook s' (cart_bookId ci) = None \<and>
           (\<forall>c \<in> set cart. \<forall>b. getBook s (cart_bookId c) = Some b \<longrightarrow>
              getBook s' (cart_bookId c) = Some (b\<lparr>book_isAvailable := Some False\<rparr>)) \<and>
           (\<forall>k. k \<notin> cart_bookId ` set cart \<longrightarrow> getBook s' k = getBook s k) \<and>
           getCartItems s' (jwt_userId u) = []"
proof -
  from cart have ne: "getCartItems s (jwt_userId u) \<noteq> []" by auto
  let ?ord = "placed_order s u t now"
  let ?new = "created_items (getBook s) (currentOrderId s) (currentOrderItemId s) cart"
  from run have r: "r = Response 201 (OrderBody ?ord)"
    and s': "s' = snd (post_api_orders (Some t) now u s)"
    by (simp_all add: checkout_unfold[OF ne])
  have oid: "order_id ?ord = currentOrderId s" by (simp add: placed_order_def)
  have "orders s' = orders s @ [(order_id ?ord, ?ord)]"
    by (simp add: s' checkout_orders[OF inv ne] oid)
  moreover have "orderItems s' = orderItems s @ ?new"
    by (simp add: s' checkout_orderItems[OF inv ne] cart(1))
  moreover have items: "getOrderItems s' (order_id ?ord) = map snd ?new"
    by (simp add: s' checkout_getOrderItems[OF inv ne] cart(1) oid)
  moreover have "map (\<lambda>it. (item_bookId it, item_price it)) (map snd ?new) =
      map (\<lambda>c. (cart_bookId c, book_price (the (getBook s (cart_bookId c)))))
        (filter (\<lambda>c. getBook s (cart_bookId c) \<noteq> None) cart)"
    using checkout_lines[OF inv ne, of t now]
    unfolding checkout_getOrderItems[OF inv ne] cart(1) .
  moreover have "\<forall>it \<in> snd ` set ?new. item_bookId it \<noteq> cart_bookId ci"
    using gone by (auto dest!: created_items_present)
  moreover have "getBook s' (cart_bookId ci) = None"
    using gone by (simp add: s' checkout_getBook[OF ne])
  moreover have "\<forall>c \<in> set cart. \<forall>b. getBook s (cart_bookId c) = Some b \<longrightarrow>
      getBook s' (cart_bookId c) = Some (b\<lparr>book_isAvailable := Some False\<rparr>)"
    by (simp add: s' checkout_getBook[OF ne] cart(1) sold_def)
  moreover have "\<forall>k. k \<notin> cart_bookId ` set cart \<longrightarrow> getBook s' k = getBook s k"
    by (simp add: s' checkout_getBook[OF ne] cart(1))
  moreover have "getCartItems s' (jwt_userId u) = []"
    by (simp add: s' checkout_cart[OF inv ne])
  ultimately show ?thesis
    using r by (intro exI[of _ ?ord] exI[of _ ?new]) simp
qed

theorem checkout_skips_vanished_listing_witness:
  "\<exists>ord new.
     fst (post_api_orders (Some ''16.49'') 5000 buyer2 vanished_store) =
       Response 201 (OrderBody ord) \<and>
     orderItems (snd (post_api_orders (Some ''16.49'') 5000 buyer2 vanished_store)) = new \<and>
     map (\<lambda>it. (item_bookId it, item_price it)) (map snd new) = [(7, ''12.50'')] \<and>
     getBook (snd (post_api_orders (Some ''16.49'') 5000 buyer2 vanished_store)) 9 = None \<and>
     getBook (snd (post_api_orders (Some ''16.49'') 5000 buyer2 vanished_store)) 7 =
       Some (book7\<lparr>book_isAvailable := Some False\<rparr>) \<and>
     getCartItems (snd (post_api_orders (Some ''16.49'') 5000 buyer2 vanished_store)) 2 = []"
proof -
  let ?c1 = "\<lparr>cart_id = 1, cart_buyerId = 2, cart_bookId = 7, cart_addedAt = 3000\<rparr>"
  let ?c2 = "\<lparr>cart_id = 2, cart_buyerId = 2, cart_bookId = 9, cart_addedAt = 4000\<rparr>"
  have mem: "?c2 \<in> set [?c1, ?c2]" by simp
  have gone: "getBook vanished_store (cart_bookId ?c2) = None"
    by (simp add: vanished_books)
  have run: "post_api_orders (Some ''16.49'') 5000 buyer2 vanished_store =
      (fst (post_api_orders (Some ''16.49'') 5000 buyer2 vanished_store),
       snd (post_api_orders (Some ''16.49'') 5000 buyer2 vanished_store))"
    by simp
  have items0: "orderItems vanished_store = []"
    by (simp add: vanished_store_def deleteBook_def sample_fields)
  from checkout_skips_vanished_listing[OF vanished_store_inv vanished_cart mem gone run]
  obtain ord new where
    "fst (post_api_orders (Some ''16.49'') 5000 buyer2 vanished_store) =
       Response 201 (OrderBody ord)"
    "orderItems (snd (post_api_orders (Some ''16.49'') 5000 buyer2 vanished_store)) =
       orderItems vanished_store @ new"
    "map (\<lambda>it. (item_bookId it, item_price it)) (map snd new) =
       map (\<lambda>c. (cart_bookId c, book_price (the (getBook vanished_store (cart_bookId c)))))
         (filter (\<lambda>c. getBook vanished_store (cart_bookId c) \<noteq> None) [?c1, ?c2])"
    "getBook (snd (post_api_orders (Some ''16.49'') 5000 buyer2 vanished_store))
       (cart_bookId ?c2) = None"
    "\<forall>c \<in> set [?c1, ?c2]. \<forall>b. getBook vanished_store (cart_bookId c) = Some b \<longrightarrow>
       getBook (snd (post_api_orders (Some ''16.49'') 5000 buyer2 vanished_store))
         (cart_bookId c) = Some (b\<lparr>book_isAvailable := Some False\<rparr>)"
    "getCartItems (snd (post_api_orders (Some ''16.49'') 5000 buyer2 vanished_store))
       (jwt_userId buyer2) = []"
    by blast
  then show ?thesis
    by (intro exI[of _ ord] exI[of _ new]) (simp add: vanished_books items0 sample_fields)
qed

text \<open>
  C6. Every order item that a checkout creates carries the price that its listing has in
  the store at the moment of the checkout, and any later partial update of a listing, by
  \<^verbatim>\<open>updateBook\<close> or by the \<^verbatim>\<open>PUT /api/books/:id\<close> route, leaves the order item table as
  it was.
\<close>

theorem order_line_price_captured:
  assumes inv: "store_inv s"
    and ne: "getCartItems s (jwt_userId u) \<noteq> []"
    and run: "post_api_orders (Some t) now u s = (r, s')"
  shows "\<exists>new.
           orderItems s' = orderItems s @ new \<and>
           (\<forall>it \<in> snd ` set new.
              \<exists>b. getBook s (item_bookId it) = Some b \<and> item_price it = book_price b) \<and>
           (\<forall>bid upd. orderItems (snd (updateBook s' bid upd)) = orderItems s @ new) \<and>
           (\<forall>bid parsed seller.
              orderItems (snd (put_api_books_id bid parsed seller s')) = orderItems s @ new)"
proof -
  let ?new = "created_items (getBook s) (currentOrderId s) (currentOrderItemId s)
     (getCartItems s (jwt_userId u))"
  from run have s': "s' = snd (post_api_orders (Some t) now u s)" by simp
  have items: "orderItems s' = orderItems s @ ?new"
    by (simp add: s' checkout_orderItems[OF inv ne])
  moreover have "\<forall>it \<in> snd ` set ?new.
      \<exists>b. getBook s (item_bookId it) = Some b \<and> item_price it = book_price b"
    by (auto dest!: created_items_present)
  ultimately show ?thesis
    by (intro exI[of _ ?new]) (simp add: frame_updateBook frame_put_api_books_id)
qed

theorem order_line_price_captured_witness:
  "map item_price (map snd (orderItems
      (snd (post_api_orders (Some ''24.49'') 5000 buyer2 sample_store)))) =
     [''12.50'', ''8.00''] \<and>
   map item_price (map snd (orderItems
      (snd (updateBook (snd (post_api_orders (Some ''24.49'') 5000 buyer2 sample_store))
        7 (no_update\<lparr>upd_price := Some ''99.99''\<rparr>))))) =
     [''12.50'', ''8.00''] \<and>
   map_option book_price (getBook
      (snd (updateBook (snd (post_api_orders (Some ''24.49'') 5000 buyer2 sample_store))
        7 (no_update\<lparr>upd_price := Some ''99.99''\<rparr>))) 7) = Some ''99.99''"
proof -
  let ?s' = "snd (post_api_orders (Some ''24.49'') 5000 buyer2 sample_store)"
  have ne: "getCartItems sample_store (jwt_userId buyer2) \<noteq> []"
    by (simp add: sample_cart)
  have run: "post_api_orders (Some ''24.49'') 5000 buyer2 sample_store =
      (fst (post_api_orders (Some ''24.49'') 5000 buyer2 sample_store), ?s')"
    by simp
  from order_line_price_captured[OF sample_store_inv ne run]
  obtain new where new: "orderItems ?s' = orderItems sample_store @ new"
    "\<forall>bid upd. orderItems (snd (updateBook ?s' bid upd)) = orderItems sample_store @ new"
    by blast
  have prices: "map item_price (map snd (orderItems ?s')) = [''12.50'', ''8.00'']"
    unfolding checkout_orderItems[OF sample_store_inv ne] sample_cart
    by (simp add: sample_books sample_fields)
  have edited: "map_option book_price (getBook
      (snd (updateBook ?s' 7 (no_update\<lparr>upd_price := Some ''99.99''\<rparr>))) 7) = Some ''99.99''"
  proof -
    have "getBook ?s' 7 = Some (sold book7)"
      unfolding checkout_getBook[OF ne] sample_cart by (simp add: sample_books)
    then have "map_of (books ?s') 7 = Some (sold book7)" by (simp add: getBook_def)
    then show ?thesis
      by (simp add: updateBook_def getBook_def merge_book_def no_update_def update_conv'
          Let_def)
  qed
  from new prices edited show ?thesis by simp
qed

text \<open>
  C7. For every listing that a checkout consumes (a cart entry names it and the store has
  it), the listing's record afterwards is the old one with the availability flag false,
  and \<^verbatim>\<open>getBooks\<close> on the resulting store returns no book with that id, whatever the
  filters (and whatever \<^verbatim>\<open>toLowerCase\<close> does to the search term).
\<close>

theorem sold_listing_unavailable:
  assumes inv: "store_inv s"
    and cart: "getCartItems s (jwt_userId u) = cart" "ci \<in> set cart"
    and listed: "getBook s (cart_bookId ci) = Some b"
    and run: "post_api_orders (Some t) now u s = (r, s')"
  shows "getBook s' (cart_bookId ci) = Some (b\<lparr>book_isAvailable := Some False\<rparr>) \<and>
         (\<forall>toLowerCase filters.
            \<forall>x \<in> set (getBooks toLowerCase s' filters). book_id x \<noteq> cart_bookId ci)"
proof -
  from cart have ne: "getCartItems s (jwt_userId u) \<noteq> []" by auto
  from run have s': "s' = snd (post_api_orders (Some t) now u s)" by simp
  have inv': "table_ok book_id (currentBookId s') (books s')"
    using checkout_inv[OF inv ne, of t now] by (simp add: s' store_inv_def)
  have sold: "getBook s' (cart_bookId ci) = Some (b\<lparr>book_isAvailable := Some False\<rparr>)"
    using cart listed by (simp add: s' checkout_getBook[OF ne] sold_def)
  have "book_id x \<noteq> cart_bookId ci" if "x \<in> set (getBooks toLowerCase s' filters)"
    for x toLowerCase filters
  proof
    assume eq: "book_id x = cart_bookId ci"
    from getBooks_available[OF that] obtain k where
      k: "(k, x) \<in> set (books s')" and av: "book_isAvailable x = Some True" by auto
    from table_ok_lookup[OF inv' k] eq have "getBook s' (cart_bookId ci) = Some x"
      by (simp add: getBook_def)
    with sold av show False by simp
  qed
  with sold show ?thesis by simp
qed

theorem sold_listing_unavailable_witness:
  "getBook (snd (post_api_orders (Some ''24.49'') 5000 buyer2 sample_store)) 7 =
     Some (book7\<lparr>book_isAvailable := Some False\<rparr>) \<and>
   7 \<notin> book_id ` set (getBooks ascii_lower
       (snd (post_api_orders (Some ''24.49'') 5000 buyer2 sample_store))
       \<lparr>f_category = Some ''Fiction'', f_condition = None, f_search = Some ''dune''\<rparr>)"
proof -
  let ?c1 = "\<lparr>cart_id = 1, cart_buyerId = 2, cart_bookId = 7, cart_addedAt = 3000\<rparr>"
  let ?c2 = "\<lparr>cart_id = 2, cart_buyerId = 2, cart_bookId = 9, cart_addedAt = 4000\<rparr>"
  have mem: "?c1 \<in> set [?c1, ?c2]" by simp
  have listed: "getBook sample_store (cart_bookId ?c1) = Some book7"
    by (simp add: sample_books)
  have run: "post_api_orders (Some ''24.49'') 5000 buyer2 sample_store =
      (fst (post_api_orders (Some ''24.49'') 5000 buyer2 sample_store),
       snd (post_api_orders (Some ''24.49'') 5000 buyer2 sample_store))"
    by simp
  from sold_listing_unavailable[OF sample_store_inv sample_cart mem listed run]
  show ?thesis by auto
qed

text \<open>
  C8. For every pair of users and every store, \<^verbatim>\<open>getMessagesBetweenUsers\<close> returns the same
  list for either order of its two arguments, and that list is sorted ascending by
  creation time; the same holds for the filter and sort on any list of rows.
\<close>

theorem message_thread_symmetric_sorted:
  "getMessagesBetweenUsers s a b = getMessagesBetweenUsers s b a \<and>
   sorted (map msg_createdAt (getMessagesBetweenUsers s a b)) \<and>
   thread_of rows a b = thread_of rows b a \<and>
   sorted (map msg_createdAt (thread_of rows a b))"
  using thread_of_sym[of _ a b] by (simp add: getMessagesBetweenUsers_def) (simp add: thread_of_def)

text \<open>
  C9. Fetching a listing by id does not look at the availability flag: a listing that is
  in the store with a flag other than true is returned by \<^verbatim>\<open>getBook\<close> and by
  \<^verbatim>\<open>GET /api/books/:id\<close> with status 200, although \<^verbatim>\<open>getBooks\<close> leaves it out; the route
  answers 404 exactly for the ids that the book table does not have.
\<close>

theorem unavailable_book_fetched_by_id:
  assumes "store_inv s" "(bid, b) \<in> set (books s)" "book_isAvailable b \<noteq> Some True"
  shows "getBook s bid = Some b \<and>
         get_api_books_id s bid = Response 200 (BookBody b) \<and>
         b \<notin> set (getBooks toLowerCase s filters) \<and>
         (\<forall>k. (get_api_books_id s k = Response 404 (Message ''Book not found'')) =
               (k \<notin> fst ` set (books s)))"
proof -
  from assms(1) have ok: "table_ok book_id (currentBookId s) (books s)"
    by (simp add: store_inv_def)
  from table_ok_lookup[OF ok assms(2)] have g: "getBook s bid = Some b"
    by (simp add: getBook_def)
  moreover have "b \<notin> set (getBooks toLowerCase s filters)"
    using assms(3) getBooks_available[of b toLowerCase s filters] by auto
  moreover have "(get_api_books_id s k = Response 404 (Message ''Book not found'')) =
               (k \<notin> fst ` set (books s))" for k
    by (cases "map_of (books s) k")
       (simp_all add: get_api_books_id_def getBook_def map_of_eq_None_iff[symmetric])
  ultimately show ?thesis by (simp add: get_api_books_id_def)
qed

theorem unavailable_book_fetched_by_id_witness:
  "getBook (snd (post_api_orders (Some ''24.49'') 5000 buyer2 sample_store)) 7 =
     Some (book7\<lparr>book_isAvailable := Some False\<rparr>) \<and>
   get_api_books_id (snd (post_api_orders (Some ''24.49'') 5000 buyer2 sample_store)) 7 =
     Response 200 (BookBody (book7\<lparr>book_isAvailable := Some False\<rparr>)) \<and>
   book7\<lparr>book_isAvailable := Some False\<rparr> \<notin>
     set (getBooks ascii_lower
            (snd (post_api_orders (Some ''24.49'') 5000 buyer2 sample_store))
            \<lparr>f_category = None, f_condition = None, f_search = None\<rparr>)"
proof -
  let ?s' = "snd (post_api_orders (Some ''24.49'') 5000 buyer2 sample_store)"
  have ne: "getCartItems sample_store (jwt_userId buyer2) \<noteq> []"
    by (simp add: sample_cart)
  have inv': "store_inv ?s'" using sample_store_inv ne by (rule checkout_inv)
  have "getBook ?s' 7 = Some (book7\<lparr>book_isAvailable := Some False\<rparr>)"
    by (simp add: checkout_getBook[OF ne] sample_cart sample_books sold_def)
  then have mem: "(7, book7\<lparr>book_isAvailable := Some False\<rparr>) \<in> set (books ?s')"
    unfolding getBook_def by (rule map_of_SomeD)
  have flag: "book_isAvailable (book7\<lparr>book_isAvailable := Some False\<rparr>) \<noteq> Some True"
    by simp
  from unavailable_book_fetched_by_id[OF inv' mem flag,
      of ascii_lower "\<lparr>f_category = None, f_condition = None, f_search = None\<rparr>"]
  show ?thesis by simp
qed

text \<open>
  C10. Deleting a listing, by \<^verbatim>\<open>deleteBook\<close> or by the \<^verbatim>\<open>DELETE /api/books/:id\<close> route,
  leaves the cart table as it was: every buyer's \<^verbatim>\<open>getCartItems\<close> returns the same entries
  afterwards, while \<^verbatim>\<open>getBook\<close> no longer finds the listing.
\<close>

theorem delete_book_keeps_cart_entries:
  "cartItems (snd (deleteBook s bid)) = cartItems s \<and>
   getCartItems (snd (deleteBook s bid)) buyer = getCartItems s buyer \<and>
   getCartItems (snd (delete_api_books_id bid u s)) buyer = getCartItems s buyer \<and>
   getBook (snd (deleteBook s bid)) bid = None"
  by (simp add: getCartItems_def deleteBook_def getBook_def delete_api_books_id_def
      delete_conv' split: option.splits)

end
